theory Spec2Isabelle
  imports Complex_Main
begin

section \<open>Rapidity histograms of primary hadrons: the driver \<open>rapidityplot.cc\<close>\<close>

text \<open>
  The program sweeps three string masses. For each it builds a generator, runs up to
  \<open>nEvent\<close> trials, fills one histogram with the rapidities of the primary hadrons and
  hands the histogram to the plot object; the plot is written once at the end.

  The generator, the event record's \<open>reset\<close> and rapidity methods and the particle data table
  belong to the external library: they are the fields of the record \<open>collab\<close>, and every
  theorem holds for all their values.
\<close>

subsection \<open>Double arithmetic\<close>

text \<open>
  A finite double is read as the real number it denotes, and an operation of the program on
  doubles is the exact operation followed by \<open>round_double\<close>: rounding to the nearest double,
  ties to the even significand, with 53 significant bits and gradual underflow below
  \<open>2^-1022\<close>. Overflow past the largest double, the infinities and NaN are not values of this
  reading, and the two zeros are one; where the sign of a zero shows (in \<open>to_string_2dp\<close>)
  the sign bit is carried beside the magnitude.
\<close>

definition round_half_even :: "real \<Rightarrow> int" where
  "round_half_even x =
     (let f = \<lfloor>x\<rfloor>; r = x - of_int f
      in if r < 1 / 2 then f else if 1 / 2 < r then f + 1 else if even f then f else f + 1)"

text \<open>The binary exponent of a positive number: \<open>2 ^ expo x \<le> x < 2 ^ (expo x + 1)\<close>.\<close>

function expo :: "real \<Rightarrow> int" where
  "expo x =
     (if x \<le> 0 then 0
      else if 2 \<le> x then expo (x / 2) + 1
      else if x < 1 then expo (2 * x) - 1
      else 0)"
  by pat_completeness auto
termination
proof (relation "measure (\<lambda>x. nat \<bar>\<lfloor>log 2 x\<rfloor>\<bar>)")
  show "wf (measure (\<lambda>x. nat \<bar>\<lfloor>log 2 x\<rfloor>\<bar>))" by simp
next
  fix x :: real
  assume "\<not> x \<le> 0" and "2 \<le> x"
  then have "log 2 (x / 2) = log 2 x - 1" by (simp add: log_divide)
  moreover have "1 \<le> log 2 x" using \<open>2 \<le> x\<close> by (simp add: le_log_iff)
  ultimately have a: "\<lfloor>log 2 (x / 2)\<rfloor> = \<lfloor>log 2 x\<rfloor> - 1" and b: "1 \<le> \<lfloor>log 2 x\<rfloor>"
    by (simp_all add: le_floor_iff)
  have "nat \<bar>\<lfloor>log 2 (x / 2)\<rfloor>\<bar> < nat \<bar>\<lfloor>log 2 x\<rfloor>\<bar>"
    unfolding a using b by linarith
  then show "(x / 2, x) \<in> measure (\<lambda>x. nat \<bar>\<lfloor>log 2 x\<rfloor>\<bar>)" by simp
next
  fix x :: real
  assume "\<not> x \<le> 0" and "\<not> 2 \<le> x" and "x < 1"
  then have "log 2 (2 * x) = 1 + log 2 x" by (simp add: log_mult)
  moreover have "log 2 x < 0" using \<open>\<not> x \<le> 0\<close> \<open>x < 1\<close> by simp
  ultimately have a: "\<lfloor>log 2 (2 * x)\<rfloor> = \<lfloor>log 2 x\<rfloor> + 1" and b: "\<lfloor>log 2 x\<rfloor> < 0"
    by (simp_all add: floor_less_iff)
  have "nat \<bar>\<lfloor>log 2 (2 * x)\<rfloor>\<bar> < nat \<bar>\<lfloor>log 2 x\<rfloor>\<bar>"
    unfolding a using b by linarith
  then show "(2 * x, x) \<in> measure (\<lambda>x. nat \<bar>\<lfloor>log 2 x\<rfloor>\<bar>)" by simp
qed

text \<open>The spacing of the doubles around \<open>x\<close>, and the rounding to the nearest of them.\<close>

definition ulp :: "real \<Rightarrow> real" where
  "ulp x =
     (let e = max (expo \<bar>x\<bar>) (- 1022) - 52
      in if 0 \<le> e then 2 ^ nat e else 1 / 2 ^ nat (- e))"

definition round_double :: "real \<Rightarrow> real" where
  "round_double x = of_int (round_half_even (x / ulp x)) * ulp x"

definition dadd :: "real \<Rightarrow> real \<Rightarrow> real" where
  "dadd a b = round_double (a + b)"

definition dsub :: "real \<Rightarrow> real \<Rightarrow> real" where
  "dsub a b = round_double (a - b)"

definition dmul :: "real \<Rightarrow> real \<Rightarrow> real" where
  "dmul a b = round_double (a * b)"

definition ddiv :: "real \<Rightarrow> real \<Rightarrow> real" where
  "ddiv a b = round_double (a / b)"

text \<open>
  A double with its sign bit: \<open>Double s m\<close> is the double of magnitude \<open>m\<close> with sign bit \<open>s\<close>,
  so that \<open>Double True 0\<close> is the negative zero. \<open>double_of\<close> is the double of a real that is
  not the negative zero.
\<close>

datatype double = Double (signbit: bool) (magnitude: real)

definition double_of :: "real \<Rightarrow> double" where
  "double_of x = Double (x < 0) \<bar>x\<bar>"

subsection \<open>\<open>to_string_2dp\<close>\<close>

text \<open>
  \<open>out << fixed << setprecision(2) << val\<close>: fixed notation with two digits after the
  point. The magnitude is rounded to a whole number of hundredths, ties to the even one (the
  default rounding of the stream's conversion); the minus sign when the sign bit is set, the
  decimal digits of the integer part, the point and the two digits follow.
\<close>

definition digit_char :: "nat \<Rightarrow> char" where
  "digit_char d = ''0123456789'' ! d"

function digits :: "nat \<Rightarrow> string" where
  "digits n = (if n < 10 then [digit_char n] else digits (n div 10) @ [digit_char (n mod 10)])"
  by pat_completeness auto
termination
  by (relation "measure (\<lambda>n. n)") auto

definition to_string_2dp :: "double \<Rightarrow> string" where
  "to_string_2dp val =
     (let q = nat (round_half_even (\<bar>magnitude val\<bar> * 100))
      in (if signbit val then ''-'' else '''') @ digits (q div 100) @ ''.'' @
         [digit_char (q mod 100 div 10), digit_char (q mod 10)])"

subsection \<open>The histogram\<close>

datatype error = InvalidGeometry | GeometryMismatch

record hist =
  title :: string
  binCount :: int
  lowEdge :: real
  highEdge :: real
  counts :: "real list"
  underflow :: real
  overflow :: real
  entries :: int
  sumValues :: real
  sumSquares :: real

text \<open>
  Modelled from the spec: the class \<open>Hist\<close> (constructor and \<open>fill\<close>) is used by the driver
  and is not part of its source. The constructor zeroes every accumulator; \<open>create\<close> is the
  constructor behind the geometry check of the specification.
\<close>

definition Hist_new :: "string \<Rightarrow> int \<Rightarrow> real \<Rightarrow> real \<Rightarrow> hist" where
  "Hist_new t n lo hi =
     \<lparr>title = t, binCount = n, lowEdge = lo, highEdge = hi,
      counts = replicate (nat n) 0, underflow = 0, overflow = 0,
      entries = 0, sumValues = 0, sumSquares = 0\<rparr>"


text \<open>
  Modelled from the spec: \<open>fill\<close>, in double arithmetic. The bin index is
  \<open>floor ((value - lowEdge) / (highEdge - lowEdge) * binCount)\<close>, each operation rounded;
  the three tests are the three sentences of the contract, each on its own; the entry count
  and the two moment sums are updated whatever the value.
\<close>

definition bin_index :: "hist \<Rightarrow> real \<Rightarrow> int" where
  "bin_index h val =
     \<lfloor>dmul (ddiv (dsub val (lowEdge h)) (dsub (highEdge h) (lowEdge h)))
            (round_double (of_int (binCount h)))\<rfloor>"

definition fill :: "hist \<Rightarrow> real \<Rightarrow> real \<Rightarrow> hist" where
  "fill h val weight =
     (let idx = bin_index h val;
          h1 = (if 0 \<le> idx \<and> idx < binCount h
                then h\<lparr>counts := (counts h)[nat idx := dadd (counts h ! nat idx) weight]\<rparr>
                else h);
          h2 = (if val < lowEdge h then h1\<lparr>underflow := dadd (underflow h1) weight\<rparr> else h1);
          h3 = (if val \<ge> highEdge h then h2\<lparr>overflow := dadd (overflow h2) weight\<rparr> else h2)
      in h3\<lparr>entries := entries h3 + 1,
            sumValues := dadd (sumValues h3) (dmul weight val),
            sumSquares := dadd (sumSquares h3) (dmul (dmul weight val) val)\<rparr>)"


definition geometry :: "hist \<Rightarrow> int \<times> real \<times> real" where
  "geometry h = (binCount h, lowEdge h, highEdge h)"

subsection \<open>The plot composer\<close>

record series =
  histogram :: hist
  styleToken :: string
  label :: string

record composer =
  frameTitle :: string
  xLabel :: string
  yLabel :: string
  series_list :: "series list"

text \<open>
  Modelled from the spec: \<open>PlotComposer.add\<close>. The class \<open>HistPlot\<close> is not part of the
  driver's source. The first series defines the reference geometry; a later series with
  another bin count or range is refused.
\<close>

definition composer_add :: "composer \<Rightarrow> series \<Rightarrow> error + composer" where
  "composer_add pc s =
     (case series_list pc of
        [] \<Rightarrow> Inr (pc\<lparr>series_list := [s]\<rparr>)
      | r # _ \<Rightarrow>
          if geometry (histogram s) = geometry (histogram r)
          then Inr (pc\<lparr>series_list := series_list pc @ [s]\<rparr>)
          else Inl GeometryMismatch)"

fun add_all :: "composer \<Rightarrow> series list \<Rightarrow> error + composer" where
  "add_all pc [] = Inr pc"
| "add_all pc (s # ss) = (case composer_add pc s of Inl e \<Rightarrow> Inl e | Inr pc' \<Rightarrow> add_all pc' ss)"

subsection \<open>The event record and the external collaborator\<close>

text \<open>The arguments of \<open>event.append(id, status, col, acol, px, py, pz, e, m)\<close>.\<close>

record particle =
  pid :: int
  status :: int
  col :: int
  acol :: int
  px :: real
  py :: real
  pz :: real
  pe :: real
  pm :: real

text \<open>
  What the library answers. \<open>init_ok i\<close> is the result of \<open>pythia.init()\<close> on the generator
  built for \<open>masses[i]\<close>. \<open>event_reset i k\<close> is the record that the call of \<open>event.reset()\<close>
  in trial \<open>k\<close> of that generator leaves: nothing in the source or the specification says what
  it holds. \<open>next_event i k ev\<close> is the call of \<open>pythia.next()\<close> in trial \<open>k\<close>, with the event
  record holding \<open>ev\<close>: \<open>None\<close> when the call returns false, otherwise the record the call
  leaves. \<open>rapidity\<close> is \<open>Particle::y()\<close> and \<open>pdt_m0\<close> is \<open>ParticleData::m0\<close>.
\<close>

record collab =
  init_ok :: "nat \<Rightarrow> bool"
  event_reset :: "nat \<Rightarrow> int \<Rightarrow> particle list"
  next_event :: "nat \<Rightarrow> int \<Rightarrow> particle list \<Rightarrow> particle list option"
  rapidity :: "particle \<Rightarrow> real"
  pdt_m0 :: "int \<Rightarrow> real"

text \<open>
  Every call the driver makes on the library and every line it prints, in order.
  \<open>Event_reset\<close> carries the record the call leaves, \<open>Pythia_next\<close> the record the call finds
  and its answer.
\<close>

datatype action =
    HistPlot_ctor string
  | Hpl_frame string string string string
  | Pythia_ctor
  | ReadString string
  | Cout_initialising real
  | Pythia_init bool
  | Event_reset "particle list"
  | Event_append particle
  | Pythia_next "particle list" "particle list option"
  | Hist_fill real
  | Cout_error
  | Pythia_stat
  | Cout_hist hist
  | Hpl_add hist string string
  | Hpl_plot

subsection \<open>\<open>main\<close>\<close>

definition masses :: "real list" where
  "masses = [5, 20, 100]"

definition plotColours :: "string list" where
  "plotColours = [''steelblue'', ''seagreen'', ''indianred'']"

definition nEvent :: int where
  "nEvent = 1000000"

definition qid :: int where
  "qid = 1"

definition masslessQuarks :: bool where
  "masslessQuarks = True"

text \<open>The library's \<open>sqrtpos\<close>: the square root of the argument, or of zero when it is negative.\<close>

definition sqrtpos :: "real \<Rightarrow> real" where
  "sqrtpos x = round_double (sqrt (max 0 x))"

text \<open>
  The loop over the particles of one event, lines 92 to 98: \<open>fill\<close> is called with the
  default weight 1.
\<close>

function particle_loop :: "collab \<Rightarrow> particle list \<Rightarrow> nat \<Rightarrow> hist \<times> action list \<Rightarrow> hist \<times> action list" where
  "particle_loop E event i (dndy, tr) =
     (if i < length event then
        (let st = status (event ! i)
         in if st > 80 \<and> st < 90
            then particle_loop E event (i + 1)
                   (fill dndy (rapidity E (event ! i)) 1, tr @ [Hist_fill (rapidity E (event ! i))])
            else particle_loop E event (i + 1) (dndy, tr))
      else (dndy, tr))"
  by pat_completeness auto
termination
  by (relation "measure (\<lambda>(E, event, i, s). length event - i)") auto

text \<open>The two partons appended at the start of each trial, lines 79 to 83.\<close>

definition quark :: "collab \<Rightarrow> real \<Rightarrow> particle" where
  "quark E smass =
     (let mm = (if masslessQuarks then 0 else pdt_m0 E qid);
          ee = ddiv smass 2;
          pp = sqrtpos (dsub (dmul ee ee) (dmul mm mm))
      in \<lparr>pid = qid, status = 23, col = 101, acol = 0,
          px = 0, py = 0, pz = pp, pe = ee, pm = mm\<rparr>)"

definition antiquark :: "collab \<Rightarrow> real \<Rightarrow> particle" where
  "antiquark E smass =
     (let mm = (if masslessQuarks then 0 else pdt_m0 E qid);
          ee = ddiv smass 2;
          pp = sqrtpos (dsub (dmul ee ee) (dmul mm mm))
      in \<lparr>pid = - qid, status = 23, col = 0, acol = 101,
          px = 0, py = 0, pz = - pp, pe = ee, pm = mm\<rparr>)"

text \<open>
  The event loop, lines 76 to 99. \<open>event.reset()\<close> leaves what the library leaves; the two
  calls of \<open>append\<close> add one particle each at the end of that. A failed \<open>pythia.next()\<close> prints
  the error line and leaves the loop.
\<close>

function event_loop :: "collab \<Rightarrow> nat \<Rightarrow> real \<Rightarrow> int \<Rightarrow> hist \<times> action list \<Rightarrow> hist \<times> action list" where
  "event_loop E iMass smass iEvent (dndy, tr) =
     (if iEvent < nEvent then
        (let event = event_reset E iMass iEvent;
             tr = tr @ [Event_reset event];
             event = event @ [quark E smass];
             event = event @ [antiquark E smass];
             tr = tr @ [Event_append (quark E smass), Event_append (antiquark E smass)]
         in case next_event E iMass iEvent event of
              None \<Rightarrow> (dndy, tr @ [Pythia_next event None, Cout_error])
            | Some event' \<Rightarrow>
                event_loop E iMass smass (iEvent + 1)
                  (particle_loop E event' 0 (dndy, tr @ [Pythia_next event (Some event')])))
      else (dndy, tr))"
  by pat_completeness auto
termination
  by (relation "measure (\<lambda>(E, iMass, smass, iEvent, s). nat (nEvent - iEvent))") auto

text \<open>
  One turn of the loop over the masses, lines 46 to 107. \<open>Some 1\<close> is \<open>return 1\<close> after a failed
  initialisation; \<open>None\<close> is the end of the loop body. The masses are positive literals, so
  the double handed to \<open>to_string_2dp\<close> is \<open>double_of\<close> the mass.
\<close>

definition mass_body :: "collab \<Rightarrow> nat \<Rightarrow> action list \<Rightarrow> int option \<times> action list" where
  "mass_body E iMass tr =
     (let smass = masses ! iMass;
          tr = tr @ [Pythia_ctor,
                       ReadString ''ProcessLevel:all = off'',
                       ReadString ''HadronLevel:Decay = off'',
                       ReadString ''StringPT:sigma = 0'',
                       ReadString ''Next:numberCount = 100000'',
                       Cout_initialising smass,
                       Pythia_init (init_ok E iMass)]
      in if \<not> init_ok E iMass then (Some 1, tr)
         else
           (let dndy = Hist_new ''Rapidity distribution dn/dy of primary hadrons'' 100 (- 10) 10;
                (dndy, tr) = event_loop E iMass smass 0 (dndy, tr);
                tr = tr @ [Pythia_stat, Cout_hist dndy,
                             Hpl_add dndy (''--,'' @ plotColours ! iMass)
                               (to_string_2dp (double_of smass) @ '' GeV string'')]
            in (None, tr)))"

function mass_loop :: "collab \<Rightarrow> nat \<Rightarrow> action list \<Rightarrow> int option \<times> action list" where
  "mass_loop E iMass tr =
     (if iMass < length masses then
        (case mass_body E iMass tr of
           (Some rc, tr') \<Rightarrow> (Some rc, tr')
         | (None, tr') \<Rightarrow> mass_loop E (iMass + 1) tr')
      else (None, tr))"
  by pat_completeness auto
termination
  by (relation "measure (\<lambda>(E, iMass, tr). length masses - iMass)") auto

definition main :: "collab \<Rightarrow> int \<times> action list" where
  "main E =
     (let tr = [HistPlot_ctor ''rapidityplot'',
                 Hpl_frame ''rapidityplot''
                   ''Rapidity distributions of primary hadrons for differing string energies''
                   ''y'' ''n'']
      in case mass_loop E 0 tr of
           (Some rc, tr') \<Rightarrow> (rc, tr')
         | (None, tr') \<Rightarrow> (0, tr' @ [Hpl_plot]))"

subsection \<open>Reading the trace\<close>

text \<open>
  The values passed to \<open>fill\<close>, the series handed to \<open>hpl.add\<close> and the number of calls of
  \<open>pythia.next()\<close>, each read off a trace in order.
\<close>

fun fills :: "action list \<Rightarrow> real list" where
  "fills [] = []"
| "fills (Hist_fill v # as) = v # fills as"
| "fills (_ # as) = fills as"

fun added :: "action list \<Rightarrow> series list" where
  "added [] = []"
| "added (Hpl_add h s l # as) = \<lparr>histogram = h, styleToken = s, label = l\<rparr> # added as"
| "added (_ # as) = added as"

fun attempts :: "action list \<Rightarrow> nat" where
  "attempts [] = 0"
| "attempts (Pythia_next ev r # as) = Suc (attempts as)"
| "attempts (_ # as) = attempts as"

definition is_frame :: "action \<Rightarrow> bool" where
  "is_frame a = (case a of Hpl_frame _ _ _ _ \<Rightarrow> True | _ \<Rightarrow> False)"

definition is_add :: "action \<Rightarrow> bool" where
  "is_add a = (case a of Hpl_add _ _ _ \<Rightarrow> True | _ \<Rightarrow> False)"

definition is_plot :: "action \<Rightarrow> bool" where
  "is_plot a = (a = Hpl_plot)"

text \<open>The actions of the event loop: those on the event record, the generator and the histogram.\<close>

definition trial_action :: "action \<Rightarrow> bool" where
  "trial_action a =
     (case a of
        Event_reset _ \<Rightarrow> True
      | Event_append _ \<Rightarrow> True
      | Pythia_next _ _ \<Rightarrow> True
      | Hist_fill _ \<Rightarrow> True
      | Cout_error \<Rightarrow> True
      | _ \<Rightarrow> False)"

subsection \<open>Names for the statements\<close>

text \<open>
  The loops are unfolded one turn at a time by the lemmas below, never by the simplifier on
  its own.
\<close>

declare particle_loop.simps [simp del]
declare event_loop.simps [simp del]
declare mass_loop.simps [simp del]
declare digits.simps [simp del]
declare expo.simps [simp del]

text \<open>
  The test of line 95; the record trial \<open>iEvent\<close> hands to the generator (what \<open>reset\<close> left,
  then the two partons); and what the scan of a record fills.
\<close>

definition primary :: "particle \<Rightarrow> bool" where
  "primary p = (status p > 80 \<and> status p < 90)"

definition record_in :: "collab \<Rightarrow> nat \<Rightarrow> real \<Rightarrow> int \<Rightarrow> particle list" where
  "record_in E iMass smass iEvent = event_reset E iMass iEvent @ [quark E smass, antiquark E smass]"

definition scanned :: "collab \<Rightarrow> particle list \<Rightarrow> real list" where
  "scanned E ev = map (rapidity E) (filter primary ev)"

definition fill_all :: "hist \<Rightarrow> real list \<Rightarrow> hist" where
  "fill_all h vs = foldl (\<lambda>h v. fill h v 1) h vs"

text \<open>
  The actions of trial \<open>iEvent\<close>: the reset, the two appends, the call of the generator on
  \<open>record_in\<close>, and then the error line when the call failed, or one fill for each primary
  particle of the record the call left.
\<close>

definition trial_trace :: "collab \<Rightarrow> nat \<Rightarrow> real \<Rightarrow> int \<Rightarrow> action list" where
  "trial_trace E iMass smass iEvent =
     [Event_reset (event_reset E iMass iEvent),
      Event_append (quark E smass), Event_append (antiquark E smass),
      Pythia_next (record_in E iMass smass iEvent)
        (next_event E iMass iEvent (record_in E iMass smass iEvent))] @
     (case next_event E iMass iEvent (record_in E iMass smass iEvent) of
        None \<Rightarrow> [Cout_error]
      | Some ev \<Rightarrow> map Hist_fill (scanned E ev))"

text \<open>
  The histogram of lines 72 and 73, and what the event loop appends to the trace from trial
  \<open>iEvent\<close> on: the loop run on an empty trace (lemma \<open>event_loop_trace\<close> shows that the loop
  appends the same actions to any trace, from any histogram).
\<close>

definition dndy0 :: hist where
  "dndy0 = Hist_new ''Rapidity distribution dn/dy of primary hadrons'' 100 (- 10) 10"

definition event_trace :: "collab \<Rightarrow> nat \<Rightarrow> real \<Rightarrow> int \<Rightarrow> action list" where
  "event_trace E iMass smass iEvent = snd (event_loop E iMass smass iEvent (dndy0, []))"

text \<open>
  The actions of one configuration up to its initialisation, all the actions of one
  configuration, the series it adds when it initialises, and the two actions before the loop.
\<close>

definition setup_trace :: "collab \<Rightarrow> nat \<Rightarrow> action list" where
  "setup_trace E iMass =
     [Pythia_ctor,
      ReadString ''ProcessLevel:all = off'',
      ReadString ''HadronLevel:Decay = off'',
      ReadString ''StringPT:sigma = 0'',
      ReadString ''Next:numberCount = 100000'',
      Cout_initialising (masses ! iMass),
      Pythia_init (init_ok E iMass)]"

definition config_trace :: "collab \<Rightarrow> nat \<Rightarrow> action list" where
  "config_trace E iMass = snd (mass_body E iMass [])"

definition config_series :: "collab \<Rightarrow> nat \<Rightarrow> series" where
  "config_series E iMass =
     \<lparr>histogram = fill_all dndy0 (fills (event_trace E iMass (masses ! iMass) 0)),
      styleToken = ''--,'' @ plotColours ! iMass,
      label = to_string_2dp (double_of (masses ! iMass)) @ '' GeV string''\<rparr>"

definition header :: "action list" where
  "header = [HistPlot_ctor ''rapidityplot'',
             Hpl_frame ''rapidityplot''
               ''Rapidity distributions of primary hadrons for differing string energies''
               ''y'' ''n'']"


text \<open>
  Reading a string of decimal digits back as a number, and the strings that write a number
  without a spare leading zero.
\<close>

definition digit_value :: "char \<Rightarrow> nat" where
  "digit_value c = of_char c - 48"

definition decimal :: "string \<Rightarrow> nat" where
  "decimal ds = foldl (\<lambda>n c. 10 * n + digit_value c) 0 ds"

definition is_digit :: "char \<Rightarrow> bool" where
  "is_digit c = (c \<in> set ''0123456789'')"

definition canonical :: "string \<Rightarrow> bool" where
  "canonical ds = (ds \<noteq> [] \<and> list_all is_digit ds \<and> (ds = ''0'' \<or> hd ds \<noteq> CHR ''0''))"

subsection \<open>Collaborators for the worked examples\<close>

text \<open>
  In each of them \<open>reset\<close> leaves one entry for the system as a whole, as the library's
  documentation describes. \<open>collab_short\<close>: every initialisation succeeds and the third trial
  of each configuration fails. \<open>collab_steady\<close>: nothing ever fails. \<open>collab_init_fails\<close>: the
  second initialisation fails, and so does the first trial of the first configuration.
  \<open>collab_other\<close>: answers as \<open>collab_short\<close> for the first configuration and fails everywhere
  else.
\<close>

definition system_entry :: particle where
  "system_entry = \<lparr>pid = 90, status = - 11, col = 0, acol = 0, px = 0, py = 0, pz = 0, pe = 0, pm = 0\<rparr>"

definition hadron :: "int \<Rightarrow> real \<Rightarrow> particle" where
  "hadron st z = \<lparr>pid = 211, status = st, col = 0, acol = 0, px = 0, py = 0, pz = z, pe = 1, pm = 0\<rparr>"

definition collab_short :: collab where
  "collab_short =
     \<lparr>init_ok = (\<lambda>i. True),
      event_reset = (\<lambda>i k. [system_entry]),
      next_event = (\<lambda>i k ev. if k < 2 then Some (ev @ [hadron 83 (1 / 2), hadron 91 3, hadron 84 (- (1 / 2))]) else None),
      rapidity = pz,
      pdt_m0 = (\<lambda>i. 0)\<rparr>"

definition collab_steady :: collab where
  "collab_steady =
     \<lparr>init_ok = (\<lambda>i. True),
      event_reset = (\<lambda>i k. [system_entry]),
      next_event = (\<lambda>i k ev. Some (ev @ [hadron 83 0])),
      rapidity = pz,
      pdt_m0 = (\<lambda>i. 0)\<rparr>"

definition collab_init_fails :: collab where
  "collab_init_fails =
     \<lparr>init_ok = (\<lambda>i. i = 0),
      event_reset = (\<lambda>i k. [system_entry]),
      next_event = (\<lambda>i k ev. None),
      rapidity = pz,
      pdt_m0 = (\<lambda>i. 0)\<rparr>"

definition collab_other :: collab where
  "collab_other =
     \<lparr>init_ok = (\<lambda>i. i = 0),
      event_reset = (\<lambda>i k. [system_entry]),
      next_event = (\<lambda>i k ev. if i = 0 \<and> k < 2 then Some (ev @ [hadron 83 (1 / 2), hadron 91 3, hadron 84 (- (1 / 2))]) else None),
      rapidity = pz,
      pdt_m0 = (\<lambda>i. 0)\<rparr>"

section \<open>The histogram in double arithmetic\<close>

lemmas double_eval =
  dadd_def dsub_def dmul_def ddiv_def round_double_def ulp_def expo.simps round_half_even_def Let_def

lemma fill_counts:
  "counts (fill h v w) =
     (if 0 \<le> bin_index h v \<and> bin_index h v < binCount h
      then (counts h)[nat (bin_index h v) := dadd (counts h ! nat (bin_index h v)) w]
      else counts h)"
  by (simp add: fill_def Let_def)

lemma fill_underflow:
  "underflow (fill h v w) = (if v < lowEdge h then dadd (underflow h) w else underflow h)"
  by (simp add: fill_def Let_def)

lemma fill_overflow:
  "overflow (fill h v w) = (if highEdge h \<le> v then dadd (overflow h) w else overflow h)"
  by (simp add: fill_def Let_def)

lemma fill_entries: "entries (fill h v w) = entries h + 1"
  by (simp add: fill_def Let_def)

lemma fill_geometry: "geometry (fill h v w) = geometry h"
  by (simp add: geometry_def fill_def Let_def)

lemma dndy0_fields:
  "binCount dndy0 = 100" "lowEdge dndy0 = - 10" "highEdge dndy0 = 10"
  "counts dndy0 = replicate 100 0" "underflow dndy0 = 0" "overflow dndy0 = 0" "entries dndy0 = 0"
  by (simp_all add: dndy0_def Hist_new_def)





text \<open>The bin placements the specification lists for ten bins over 0 to 10.\<close>

lemma fill_examples:
  "bin_index (Hist_new t 10 0 10) 5 = 5"
  "bin_index (Hist_new t 10 0 10) (9999 / 1000) = 9"
  "bin_index (Hist_new t 10 0 10) 10 = 10"
  "overflow (fill (Hist_new t 10 0 10) 10 1) = 1"
  "underflow (fill (Hist_new t 10 0 10) (- (1 / 1000)) 1) = 1"
  by (simp_all add: bin_index_def fill_overflow fill_underflow Hist_new_def double_eval)


section \<open>The loops, unfolded\<close>

lemma fills_append: "fills (xs @ ys) = fills xs @ fills ys"
  by (induction xs rule: fills.induct) simp_all

lemma fills_map_fill: "fills (map Hist_fill vs) = vs"
  by (induction vs) simp_all

lemma added_append: "added (xs @ ys) = added xs @ added ys"
  by (induction xs rule: added.induct) simp_all

lemma attempts_append: "attempts (xs @ ys) = attempts xs + attempts ys"
  by (induction xs rule: attempts.induct) simp_all

lemma attempts_map_fill: "attempts (map Hist_fill vs) = 0"
  by (induction vs) simp_all

lemma fill_all_append: "fill_all h (xs @ ys) = fill_all (fill_all h xs) ys"
  by (simp add: fill_all_def)

lemma fill_all_Nil: "fill_all h [] = h"
  by (simp add: fill_all_def)

lemma fill_all_geometry: "geometry (fill_all h vs) = geometry h"
  unfolding fill_all_def by (induction vs arbitrary: h) (simp_all add: fill_geometry)

lemma fill_all_entries: "entries (fill_all h vs) = entries h + int (length vs)"
  unfolding fill_all_def by (induction vs arbitrary: h) (simp_all add: fill_entries)

lemma primary_range: "primary = (\<lambda>p. status p \<in> {81..89})"
  by (auto simp: primary_def fun_eq_iff)

lemma particle_loop_done:
  "\<not> i < length ev \<Longrightarrow> particle_loop E ev i (h, tr) = (h, tr)"
  by (simp add: particle_loop.simps[of E ev i])

lemma particle_loop_hit:
  "i < length ev \<Longrightarrow> primary (ev ! i) \<Longrightarrow>
   particle_loop E ev i (h, tr) =
     particle_loop E ev (Suc i) (fill h (rapidity E (ev ! i)) 1, tr @ [Hist_fill (rapidity E (ev ! i))])"
  by (simp add: particle_loop.simps[of E ev i] Let_def primary_def)

lemma particle_loop_miss:
  "i < length ev \<Longrightarrow> \<not> primary (ev ! i) \<Longrightarrow>
   particle_loop E ev i (h, tr) = particle_loop E ev (Suc i) (h, tr)"
  by (auto simp: particle_loop.simps[of E ev i] Let_def primary_def)

lemma particle_loop_drop:
  "particle_loop E ev i (h, tr) =
     (fill_all h (scanned E (drop i ev)), tr @ map Hist_fill (scanned E (drop i ev)))"
proof (induction "length ev - i" arbitrary: i h tr)
  case 0
  then show ?case by (simp add: particle_loop_done scanned_def fill_all_def)
next
  case (Suc n)
  then have lt: "i < length ev" and n: "n = length ev - Suc i" by simp_all
  have d: "drop i ev = ev ! i # drop (Suc i) ev"
    using lt by (simp add: Cons_nth_drop_Suc)
  show ?case
  proof (cases "primary (ev ! i)")
    case True
    then show ?thesis
      using Suc.hyps(1)[OF n] lt by (simp add: particle_loop_hit d scanned_def fill_all_def)
  next
    case False
    then show ?thesis
      using Suc.hyps(1)[OF n] lt by (simp add: particle_loop_miss d scanned_def fill_all_def)
  qed
qed

lemma trial_trace_fail:
  "next_event E iMass iEvent (record_in E iMass smass iEvent) = None \<Longrightarrow>
   trial_trace E iMass smass iEvent =
     [Event_reset (event_reset E iMass iEvent),
      Event_append (quark E smass), Event_append (antiquark E smass),
      Pythia_next (record_in E iMass smass iEvent) None, Cout_error]"
  by (simp add: trial_trace_def)


lemma trial_trace_fills:
  "fills (trial_trace E iMass smass iEvent) =
     (case next_event E iMass iEvent (record_in E iMass smass iEvent) of
        None \<Rightarrow> [] | Some ev \<Rightarrow> scanned E ev)"
  by (simp add: trial_trace_def fills_append fills_map_fill split: option.splits)

lemma trial_trace_attempts: "attempts (trial_trace E iMass smass iEvent) = 1"
  by (simp add: trial_trace_def attempts_append attempts_map_fill split: option.splits)

lemma trial_trace_actions: "list_all trial_action (trial_trace E iMass smass iEvent)"
  by (simp add: trial_trace_def trial_action_def list_all_iff split: option.splits)

lemma event_loop_done:
  "\<not> iEvent < nEvent \<Longrightarrow> event_loop E iMass smass iEvent (h, tr) = (h, tr)"
  by (simp add: event_loop.simps[of E iMass smass iEvent])

lemma event_loop_fail:
  "iEvent < nEvent \<Longrightarrow> next_event E iMass iEvent (record_in E iMass smass iEvent) = None \<Longrightarrow>
   event_loop E iMass smass iEvent (h, tr) = (h, tr @ trial_trace E iMass smass iEvent)"
  by (simp add: event_loop.simps[of E iMass smass iEvent] trial_trace_def record_in_def Let_def)

lemma event_loop_step:
  "iEvent < nEvent \<Longrightarrow> next_event E iMass iEvent (record_in E iMass smass iEvent) = Some ev' \<Longrightarrow>
   event_loop E iMass smass iEvent (h, tr) =
     event_loop E iMass smass (iEvent + 1)
       (fill_all h (scanned E ev'), tr @ trial_trace E iMass smass iEvent)"
  by (simp add: event_loop.simps[of E iMass smass iEvent] trial_trace_def record_in_def
      particle_loop_drop Let_def)

lemma event_loop_shift:
  "event_loop E iMass smass iEvent (h, tr) =
     (fill_all h (fills (snd (event_loop E iMass smass iEvent (h', [])))),
      tr @ snd (event_loop E iMass smass iEvent (h', [])))"
proof (induction "nat (nEvent - iEvent)" arbitrary: iEvent h tr h')
  case 0
  then have "\<not> iEvent < nEvent" by simp
  then show ?case by (simp add: event_loop_done fill_all_Nil)
next
  case (Suc n)
  then have lt: "iEvent < nEvent" and n: "n = nat (nEvent - (iEvent + 1))" by simp_all
  show ?case
  proof (cases "next_event E iMass iEvent (record_in E iMass smass iEvent)")
    case None
    show ?thesis
      by (simp add: event_loop_fail[OF lt None] trial_trace_fills None fill_all_Nil)
  next
    case (Some ev')
    let ?T = "trial_trace E iMass smass iEvent"
    let ?X = "snd (event_loop E iMass smass (iEvent + 1) (h', []))"
    have l: "event_loop E iMass smass iEvent (h, tr) =
               (fill_all (fill_all h (scanned E ev')) (fills ?X), (tr @ ?T) @ ?X)"
      unfolding event_loop_step[OF lt Some]
      by (rule Suc.hyps(1)[OF n])
    have r: "event_loop E iMass smass iEvent (h', []) =
               (fill_all (fill_all h' (scanned E ev')) (fills ?X), ([] @ ?T) @ ?X)"
      unfolding event_loop_step[OF lt Some]
      by (rule Suc.hyps(1)[OF n])
    have f: "fills (?T @ ?X) = scanned E ev' @ fills ?X"
      by (simp add: fills_append trial_trace_fills Some)
    show ?thesis
      unfolding l r snd_conv append_Nil f fill_all_append by simp
  qed
qed

lemma event_loop_trace:
  "event_loop E iMass smass iEvent (h, tr) =
     (fill_all h (fills (event_trace E iMass smass iEvent)), tr @ event_trace E iMass smass iEvent)"
  unfolding event_trace_def by (rule event_loop_shift)

lemma event_trace_done:
  "\<not> iEvent < nEvent \<Longrightarrow> event_trace E iMass smass iEvent = []"
  by (simp add: event_trace_def event_loop_done)

lemma event_trace_fail:
  "iEvent < nEvent \<Longrightarrow> next_event E iMass iEvent (record_in E iMass smass iEvent) = None \<Longrightarrow>
   event_trace E iMass smass iEvent = trial_trace E iMass smass iEvent"
  by (simp add: event_trace_def event_loop_fail)

lemma event_trace_step:
  "iEvent < nEvent \<Longrightarrow> next_event E iMass iEvent (record_in E iMass smass iEvent) = Some ev' \<Longrightarrow>
   event_trace E iMass smass iEvent =
     trial_trace E iMass smass iEvent @ event_trace E iMass smass (iEvent + 1)"
  unfolding event_trace_def event_loop_step
  by (subst event_loop_shift[where h' = dndy0]) simp

lemma event_trace_unfold:
  "iEvent < nEvent \<Longrightarrow>
   event_trace E iMass smass iEvent =
     trial_trace E iMass smass iEvent @
     (case next_event E iMass iEvent (record_in E iMass smass iEvent) of
        None \<Rightarrow> []
      | Some ev' \<Rightarrow> event_trace E iMass smass (iEvent + 1))"
  by (cases "next_event E iMass iEvent (record_in E iMass smass iEvent)")
     (simp_all add: event_trace_fail event_trace_step)

lemma event_trace_trial: "list_all trial_action (event_trace E iMass smass iEvent)"
proof (induction "nat (nEvent - iEvent)" arbitrary: iEvent)
  case 0
  then have "\<not> iEvent < nEvent" by simp
  then show ?case by (simp add: event_trace_done)
next
  case (Suc n)
  then have lt: "iEvent < nEvent" and n: "n = nat (nEvent - (iEvent + 1))" by simp_all
  show ?case
    using Suc.hyps(1)[OF n] trial_trace_actions[of E iMass smass iEvent]
    by (simp add: event_trace_unfold[OF lt] split: option.splits)
qed

text \<open>
  The event loop in closed form: \<open>m\<close> trials generate, and then either the trial count is
  reached or trial \<open>m\<close> fails and is the last.
\<close>

lemma event_trace_closed:
  "iEvent \<le> nEvent \<Longrightarrow>
   \<exists>m. (\<forall>k<m. next_event E iMass (iEvent + int k) (record_in E iMass smass (iEvent + int k)) \<noteq> None)
     \<and> (iEvent + int m = nEvent
          \<or> iEvent + int m < nEvent
            \<and> next_event E iMass (iEvent + int m) (record_in E iMass smass (iEvent + int m)) = None)
     \<and> event_trace E iMass smass iEvent =
         concat (map (\<lambda>k. trial_trace E iMass smass (iEvent + int k)) [0..<m]) @
         (if iEvent + int m < nEvent then trial_trace E iMass smass (iEvent + int m) else [])"
proof (induction "nat (nEvent - iEvent)" arbitrary: iEvent)
  case 0
  then have "iEvent = nEvent" by simp
  then have "event_trace E iMass smass iEvent = []" by (simp add: event_trace_done)
  then show ?case using \<open>iEvent = nEvent\<close> by (intro exI[of _ 0]) simp
next
  case (Suc n)
  then have lt: "iEvent < nEvent" and le: "iEvent + 1 \<le> nEvent"
    and n: "n = nat (nEvent - (iEvent + 1))" by simp_all
  show ?case
  proof (cases "next_event E iMass iEvent (record_in E iMass smass iEvent)")
    case None
    then show ?thesis
      using lt by (intro exI[of _ 0]) (simp add: event_trace_fail)
  next
    case (Some ev')
    let ?ok = "\<lambda>i k. next_event E iMass (i + int k) (record_in E iMass smass (i + int k)) \<noteq> None"
    let ?T = "\<lambda>i k. trial_trace E iMass smass (i + int k)"
    obtain m where ok: "\<forall>k<m. ?ok (iEvent + 1) k"
      and stop: "iEvent + 1 + int m = nEvent
          \<or> iEvent + 1 + int m < nEvent
            \<and> next_event E iMass (iEvent + 1 + int m) (record_in E iMass smass (iEvent + 1 + int m)) = None"
      and tr: "event_trace E iMass smass (iEvent + 1) =
         concat (map (?T (iEvent + 1)) [0..<m]) @
         (if iEvent + 1 + int m < nEvent then trial_trace E iMass smass (iEvent + 1 + int m) else [])"
      using Suc.hyps(1)[OF n le] by blast
    have e: "iEvent + int (Suc k) = iEvent + 1 + int k" for k by simp
    have ok': "\<forall>k<Suc m. ?ok iEvent k"
    proof (intro allI impI)
      fix k assume "k < Suc m"
      show "?ok iEvent k"
      proof (cases k)
        case 0
        then show ?thesis using Some by simp
      next
        case (Suc j)
        then have j: "j < m" using \<open>k < Suc m\<close> by simp
        show ?thesis unfolding Suc e using ok j by blast
      qed
    qed
    have sh: "map (?T iEvent) [0..<Suc m] = ?T iEvent 0 # map (?T (iEvent + 1)) [0..<m]"
    proof -
      have "[0..<Suc m] = 0 # map Suc [0..<m]"
        by (simp add: upt_conv_Cons map_Suc_upt del: upt_Suc)
      moreover have "map (?T iEvent) (map Suc [0..<m]) = map (?T (iEvent + 1)) [0..<m]"
        by (simp add: ac_simps)
      ultimately show ?thesis by (simp del: upt_Suc)
    qed
    have "event_trace E iMass smass iEvent =
            concat (map (?T iEvent) [0..<Suc m]) @
            (if iEvent + int (Suc m) < nEvent then trial_trace E iMass smass (iEvent + int (Suc m)) else [])"
      unfolding sh e by (simp add: event_trace_step[OF lt Some] tr)
    moreover have "iEvent + int (Suc m) = nEvent
          \<or> iEvent + int (Suc m) < nEvent
            \<and> next_event E iMass (iEvent + int (Suc m)) (record_in E iMass smass (iEvent + int (Suc m))) = None"
      unfolding e using stop .
    ultimately show ?thesis using ok' by blast
  qed
qed

section \<open>The sweep over the masses, unfolded\<close>

lemma mass_body_fail:
  "\<not> init_ok E iMass \<Longrightarrow> mass_body E iMass tr = (Some 1, tr @ setup_trace E iMass)"
  by (simp add: mass_body_def setup_trace_def)

lemma mass_body_ok:
  "init_ok E iMass \<Longrightarrow>
   mass_body E iMass tr =
     (None, tr @ setup_trace E iMass @ event_trace E iMass (masses ! iMass) 0 @
        [Pythia_stat,
         Cout_hist (fill_all dndy0 (fills (event_trace E iMass (masses ! iMass) 0))),
         Hpl_add (fill_all dndy0 (fills (event_trace E iMass (masses ! iMass) 0)))
           (''--,'' @ plotColours ! iMass) (to_string_2dp (double_of (masses ! iMass)) @ '' GeV string'')])"
  by (simp add: mass_body_def setup_trace_def Let_def event_loop_trace dndy0_def)

lemma setup_trace_quiet: "fills (setup_trace E iMass) = []" "attempts (setup_trace E iMass) = 0"
  by (simp_all add: setup_trace_def)

lemma trial_added: "list_all trial_action xs \<Longrightarrow> added xs = []"
  by (induction xs rule: added.induct) (simp_all add: trial_action_def)

lemma trial_not_hpl:
  "list_all trial_action xs \<Longrightarrow> a \<in> set xs \<Longrightarrow> \<not> is_frame a \<and> \<not> is_plot a \<and> \<not> is_add a"
  by (cases a) (auto simp: list_all_iff trial_action_def is_frame_def is_plot_def is_add_def)

lemma mass_body_shift:
  "mass_body E iMass tr = (fst (mass_body E iMass []), tr @ config_trace E iMass)"
  by (cases "init_ok E iMass") (simp_all add: config_trace_def mass_body_ok mass_body_fail)

lemma config_trace_fail:
  "\<not> init_ok E iMass \<Longrightarrow> config_trace E iMass = setup_trace E iMass"
  by (simp add: config_trace_def mass_body_fail)

lemma config_trace_ok:
  "init_ok E iMass \<Longrightarrow>
   config_trace E iMass =
     setup_trace E iMass @ event_trace E iMass (masses ! iMass) 0 @
        [Pythia_stat,
         Cout_hist (fill_all dndy0 (fills (event_trace E iMass (masses ! iMass) 0))),
         Hpl_add (fill_all dndy0 (fills (event_trace E iMass (masses ! iMass) 0)))
           (''--,'' @ plotColours ! iMass) (to_string_2dp (double_of (masses ! iMass)) @ '' GeV string'')]"
  by (simp add: config_trace_def mass_body_ok)

lemma mass_loop_done:
  "\<not> iMass < length masses \<Longrightarrow> mass_loop E iMass tr = (None, tr)"
  by (simp add: mass_loop.simps[of E iMass])

lemma mass_loop_fail:
  "iMass < length masses \<Longrightarrow> \<not> init_ok E iMass \<Longrightarrow>
   mass_loop E iMass tr = (Some 1, tr @ config_trace E iMass)"
  by (simp add: mass_loop.simps[of E iMass] mass_body_fail config_trace_fail)

lemma mass_loop_step:
  "iMass < length masses \<Longrightarrow> init_ok E iMass \<Longrightarrow>
   mass_loop E iMass tr = mass_loop E (iMass + 1) (tr @ config_trace E iMass)"
  by (simp add: mass_loop.simps[of E iMass] mass_body_ok config_trace_ok)

lemma main_cases:
  "main E =
     (if \<not> init_ok E 0 then (1, header @ config_trace E 0)
      else if \<not> init_ok E 1 then (1, header @ config_trace E 0 @ config_trace E 1)
      else if \<not> init_ok E 2 then (1, header @ config_trace E 0 @ config_trace E 1 @ config_trace E 2)
      else (0, header @ config_trace E 0 @ config_trace E 1 @ config_trace E 2 @ [Hpl_plot]))"
proof -
  have l: "length masses = 3" by (simp add: masses_def)
  have m: "main E = (case mass_loop E 0 header of (Some rc, tr') \<Rightarrow> (rc, tr') | (None, tr') \<Rightarrow> (0, tr' @ [Hpl_plot]))"
    by (simp add: main_def header_def)
  let ?T1 = "header @ config_trace E 0"
  let ?T2 = "header @ config_trace E 0 @ config_trace E 1"
  let ?T3 = "header @ config_trace E 0 @ config_trace E 1 @ config_trace E 2"
  show ?thesis
  proof (cases "init_ok E 0")
    case False
    have "mass_loop E 0 header = (Some 1, ?T1)"
      using mass_loop_fail[of 0 E header] False l by simp
    then show ?thesis using False by (simp add: m)
  next
    case i0: True
    have s0: "mass_loop E 0 header = mass_loop E 1 ?T1"
      using mass_loop_step[of 0 E header] i0 l by simp
    show ?thesis
    proof (cases "init_ok E 1")
      case False
      have "mass_loop E 1 ?T1 = (Some 1, ?T2)"
        using mass_loop_fail[of 1 E ?T1] False l by simp
      then have "mass_loop E 0 header = (Some 1, ?T2)" unfolding s0 .
      then show ?thesis using i0 False by (simp add: m)
    next
      case i1: True
      have s1: "mass_loop E 1 ?T1 = mass_loop E 2 ?T2"
        using mass_loop_step[of 1 E ?T1] i1 l by (simp add: numeral_2_eq_2)
      show ?thesis
      proof (cases "init_ok E 2")
        case False
        have "mass_loop E 2 ?T2 = (Some 1, ?T3)"
          using mass_loop_fail[of 2 E ?T2] False l by simp
        then have "mass_loop E 0 header = (Some 1, ?T3)" unfolding s0 s1 .
        then show ?thesis using i0 i1 False by (simp add: m)
      next
        case i2: True
        have s2: "mass_loop E 2 ?T2 = mass_loop E 3 ?T3"
          using mass_loop_step[of 2 E ?T2] i2 l by (simp add: numeral_3_eq_3 numeral_2_eq_2)
        have "mass_loop E 3 ?T3 = (None, ?T3)"
          using mass_loop_done[of 3 E ?T3] l by simp
        then have "mass_loop E 0 header = (None, ?T3)" unfolding s0 s1 s2 .
        then show ?thesis using i0 i1 i2 by (simp add: m)
      qed
    qed
  qed
qed

lemma labels:
  "to_string_2dp (double_of 5) = ''5.00''" "to_string_2dp (double_of 20) = ''20.00''"
  "to_string_2dp (double_of 100) = ''100.00''"
  by (simp_all add: to_string_2dp_def double_of_def round_half_even_def Let_def digits.simps
      digit_char_def)

lemma added_header: "added header = []"
  by (simp add: header_def)

lemma added_setup: "added (setup_trace E iMass) = []"
  by (simp add: setup_trace_def)

lemma added_config:
  "added (config_trace E iMass) = (if init_ok E iMass then [config_series E iMass] else [])"
  by (simp add: config_trace_ok config_trace_fail added_append added_setup
      trial_added[OF event_trace_trial] config_series_def)

lemma config_trace_hpl:
  assumes "a \<in> set (config_trace E iMass)"
  shows "\<not> is_frame a \<and> \<not> is_plot a"
proof (cases "init_ok E iMass")
  case False
  then show ?thesis
    using assms by (auto simp: config_trace_fail setup_trace_def is_frame_def is_plot_def)
next
  case True
  then consider "a \<in> set (setup_trace E iMass)" | "a \<in> set (event_trace E iMass (masses ! iMass) 0)"
    | "a = Pythia_stat" | "\<exists>h. a = Cout_hist h" | "\<exists>h s l. a = Hpl_add h s l"
    using assms by (auto simp: config_trace_ok)
  then show ?thesis
  proof cases
    case 1
    then show ?thesis by (auto simp: setup_trace_def is_frame_def is_plot_def)
  next
    case 2
    then show ?thesis using trial_not_hpl[OF event_trace_trial] by blast
  qed (auto simp: is_frame_def is_plot_def)
qed

lemma config_series_geometry: "geometry (histogram (config_series E iMass)) = (100, - 10, 10)"
  by (simp add: config_series_def fill_all_geometry) (simp add: dndy0_def Hist_new_def geometry_def)

lemma added_main:
  "added (snd (main E)) =
     (if \<not> init_ok E 0 then []
      else if \<not> init_ok E 1 then [config_series E 0]
      else if \<not> init_ok E 2 then [config_series E 0, config_series E 1]
      else [config_series E 0, config_series E 1, config_series E 2])"
  by (simp add: main_cases added_append added_header added_config)

lemma exit_main: "fst (main E) = (if init_ok E 0 \<and> init_ok E 1 \<and> init_ok E 2 then 0 else 1)"
  by (simp add: main_cases)

lemma add_all_same:
  assumes "list_all (\<lambda>s. geometry (histogram s) = g) ss"
    and "list_all (\<lambda>s. geometry (histogram s) = g) (series_list pc)"
  shows "add_all pc ss = Inr (pc\<lparr>series_list := series_list pc @ ss\<rparr>)"
  using assms
proof (induction ss arbitrary: pc)
  case Nil
  then show ?case by simp
next
  case (Cons s ss)
  have a: "composer_add pc s = Inr (pc\<lparr>series_list := series_list pc @ [s]\<rparr>)"
    using Cons.prems by (cases "series_list pc") (simp_all add: composer_add_def)
  have b: "list_all (\<lambda>s. geometry (histogram s) = g) (series_list (pc\<lparr>series_list := series_list pc @ [s]\<rparr>))"
    using Cons.prems by simp
  have c: "list_all (\<lambda>s. geometry (histogram s) = g) ss" using Cons.prems by simp
  show ?case using Cons.IH[OF c b] by (simp add: a)
qed

lemma main_geometry: "list_all (\<lambda>s. geometry (histogram s) = (100, - 10, 10)) (added (snd (main E)))"
  by (simp add: added_main config_series_geometry)

lemma config_trace_filter:
  "filter is_plot (config_trace E iMass) = []" "filter is_frame (config_trace E iMass) = []"
  using config_trace_hpl[of _ E iMass] by (simp_all add: filter_empty_conv)

lemma config_trace_last:
  "\<not> init_ok E iMass \<Longrightarrow> config_trace E iMass \<noteq> [] \<and> last (config_trace E iMass) = Pythia_init False"
  by (simp add: config_trace_fail setup_trace_def)

lemma header_filter: "filter is_plot header = []" "length (filter is_frame header) = 1"
  by (simp_all add: header_def is_plot_def is_frame_def)

lemma plot_filter: "is_plot Hpl_plot" "\<not> is_frame Hpl_plot"
  by (simp_all add: is_plot_def is_frame_def)

lemma main_plots:
  "filter is_plot (snd (main E)) = (if init_ok E 0 \<and> init_ok E 1 \<and> init_ok E 2 then [Hpl_plot] else [])"
  by (simp add: main_cases config_trace_filter header_filter plot_filter)

lemma main_frames: "length (filter is_frame (snd (main E))) = 1"
  by (simp add: main_cases config_trace_filter header_filter plot_filter)

lemma config_trace_starts: "take 7 (config_trace E iMass @ xs) = setup_trace E iMass"
  by (cases "init_ok E iMass") (simp_all add: config_trace_ok config_trace_fail setup_trace_def)

lemma fills_config:
  "fills (config_trace E iMass) =
     (if init_ok E iMass then fills (event_trace E iMass (masses ! iMass) 0) else [])"
  by (simp add: config_trace_ok config_trace_fail fills_append setup_trace_quiet)

text \<open>A configuration that is reached: the trace of the run around its own trace.\<close>

lemma main_reaches:
  assumes "iMass < length masses" and "\<forall>j\<le>iMass. init_ok E j"
  shows "\<exists>before after.
           snd (main E) = before @ config_trace E iMass @ after
         \<and> added before = map (config_series E) [0..<iMass]
         \<and> (iMass + 1 < length masses \<longrightarrow> take 7 after = setup_trace E (iMass + 1))
         \<and> (iMass + 1 = length masses \<longrightarrow> after = [Hpl_plot] \<and> fst (main E) = 0)"
proof -
  have l: "length masses = 3" by (simp add: masses_def)
  then have "iMass = 0 \<or> iMass = 1 \<or> iMass = 2" using assms(1) by auto
  then show ?thesis
  proof (elim disjE)
    assume i: "iMass = 0"
    define rest where "rest =
      (if \<not> init_ok E 1 then []
       else if \<not> init_ok E 2 then config_trace E 2
       else config_trace E 2 @ [Hpl_plot])"
    define after where "after = config_trace E 1 @ rest"
    have "init_ok E 0" using assms(2) i by simp
    then have a: "snd (main E) = header @ config_trace E 0 @ after"
      by (simp add: main_cases after_def rest_def)
    have b0: "take 7 after = setup_trace E 1"
      unfolding after_def by (rule config_trace_starts)
    have b: "0 + 1 < length masses \<longrightarrow> take 7 after = setup_trace E (0 + 1)"
      using b0 by simp
    have c: "added header = map (config_series E) [0..<0]" by (simp add: added_header)
    have d: "0 + 1 = length masses \<longrightarrow> after = [Hpl_plot] \<and> fst (main E) = 0"
      by (simp add: l)
    show ?thesis unfolding i using a b c d by blast
  next
    assume i: "iMass = 1"
    define after where "after = config_trace E 2 @ (if \<not> init_ok E 2 then [] else [Hpl_plot])"
    have ok: "init_ok E 0" "init_ok E 1" using assms(2) i by simp_all
    then have a: "snd (main E) = (header @ config_trace E 0) @ config_trace E 1 @ after"
      by (simp add: main_cases after_def)
    have b0: "take 7 after = setup_trace E 2"
      unfolding after_def by (rule config_trace_starts)
    have "(1::nat) + 1 = 2" by simp
    then have b: "1 + 1 < length masses \<longrightarrow> take 7 after = setup_trace E (1 + 1)"
      using b0 by (simp only: simp_thms)
    have c: "added (header @ config_trace E 0) = map (config_series E) [0..<1]"
      using ok by (simp add: added_append added_header added_config)
    have d: "1 + 1 = length masses \<longrightarrow> after = [Hpl_plot] \<and> fst (main E) = 0"
      by (simp add: l)
    show ?thesis unfolding i using a b c d by blast
  next
    assume i: "iMass = 2"
    have ok: "init_ok E 0" "init_ok E 1" "init_ok E 2" using assms(2) i by simp_all
    then have a: "snd (main E) = (header @ config_trace E 0 @ config_trace E 1) @ config_trace E 2 @ [Hpl_plot]"
      and r: "fst (main E) = 0"
      by (simp_all add: main_cases)
    have "[0..<2] = [0, 1]" by (simp add: upt_conv_Cons)
    then have c: "added (header @ config_trace E 0 @ config_trace E 1) = map (config_series E) [0..<2]"
      using ok by (simp add: added_append added_header added_config)
    have b: "2 + 1 < length masses \<longrightarrow> take 7 [Hpl_plot] = setup_trace E (2 + 1)"
      by (simp add: l)
    have d: "2 + 1 = length masses \<longrightarrow> [Hpl_plot] = [Hpl_plot] \<and> fst (main E) = 0"
      using r by simp
    show ?thesis unfolding i using a b c d by blast
  qed
qed

lemma attempts_trials:
  "attempts (concat (map (\<lambda>k. trial_trace E iMass smass (f k)) xs)) = length xs"
  by (induction xs) (simp_all add: attempts_append trial_trace_attempts)

lemma fills_trials:
  "fills (concat (map (\<lambda>k. trial_trace E iMass smass (f k)) xs)) =
     concat (map (\<lambda>k. fills (trial_trace E iMass smass (f k))) xs)"
  by (induction xs) (simp_all add: fills_append)

lemma actions_trials:
  "list_all trial_action (concat (map (\<lambda>k. trial_trace E iMass smass (f k)) xs))"
  by (induction xs) (simp_all add: trial_trace_actions)

section \<open>The event loop\<close>

text \<open>
  The event loop from its first trial: how many trials generate, how many calls of the
  generator are made, and what is filled.
\<close>

lemma event_trace_summary:
  "\<exists>m. (\<forall>k<m. next_event E iMass (int k) (record_in E iMass smass (int k)) \<noteq> None)
     \<and> (int m = nEvent
          \<or> int m < nEvent \<and> next_event E iMass (int m) (record_in E iMass smass (int m)) = None)
     \<and> event_trace E iMass smass 0 =
         concat (map (\<lambda>k. trial_trace E iMass smass (int k)) [0..<m]) @
         (if int m < nEvent then trial_trace E iMass smass (int m) else [])
     \<and> attempts (event_trace E iMass smass 0) = m + (if int m < nEvent then 1 else 0)
     \<and> fills (event_trace E iMass smass 0) =
         concat (map (\<lambda>k. scanned E (the (next_event E iMass (int k) (record_in E iMass smass (int k)))))
                   [0..<m])"
proof -
  have "(0::int) \<le> nEvent" by (simp add: nEvent_def)
  from event_trace_closed[OF this, of E iMass smass]
  obtain m where ok: "\<forall>k<m. next_event E iMass (int k) (record_in E iMass smass (int k)) \<noteq> None"
    and stop: "int m = nEvent
          \<or> int m < nEvent \<and> next_event E iMass (int m) (record_in E iMass smass (int m)) = None"
    and tr: "event_trace E iMass smass 0 =
         concat (map (\<lambda>k. trial_trace E iMass smass (int k)) [0..<m]) @
         (if int m < nEvent then trial_trace E iMass smass (int m) else [])"
    by auto
  have a: "attempts (event_trace E iMass smass 0) = m + (if int m < nEvent then 1 else 0)"
    unfolding tr by (simp add: attempts_append attempts_trials trial_trace_attempts)
  have last: "int m < nEvent \<Longrightarrow> fills (trial_trace E iMass smass (int m)) = []"
    using stop by (simp add: trial_trace_fills)
  have each: "map (\<lambda>k. fills (trial_trace E iMass smass (int k))) [0..<m] =
              map (\<lambda>k. scanned E (the (next_event E iMass (int k) (record_in E iMass smass (int k))))) [0..<m]"
    using ok by (auto simp: trial_trace_fills split: option.splits)
  have f: "fills (event_trace E iMass smass 0) =
         concat (map (\<lambda>k. scanned E (the (next_event E iMass (int k) (record_in E iMass smass (int k)))))
                   [0..<m])"
    unfolding tr using last by (simp add: fills_append fills_trials each)
  show ?thesis using ok stop tr a f by blast
qed

lemma attempts_all_ok:
  assumes "\<forall>j. 0 \<le> j \<and> j < nEvent \<longrightarrow> next_event E iMass j (record_in E iMass smass j) \<noteq> None"
  shows "attempts (event_trace E iMass smass 0) = nat nEvent"
proof -
  obtain m where stop: "int m = nEvent
          \<or> int m < nEvent \<and> next_event E iMass (int m) (record_in E iMass smass (int m)) = None"
    and a: "attempts (event_trace E iMass smass 0) = m + (if int m < nEvent then 1 else 0)"
    using event_trace_summary[of E iMass smass] by blast
  have "int m = nEvent"
  proof (rule ccontr)
    assume "int m \<noteq> nEvent"
    then have lt: "int m < nEvent"
      and f: "next_event E iMass (int m) (record_in E iMass smass (int m)) = None"
      using stop by simp_all
    have "0 \<le> int m \<and> int m < nEvent" using lt by simp
    then have "next_event E iMass (int m) (record_in E iMass smass (int m)) \<noteq> None"
      using assms by blast
    then show False using f by simp
  qed
  then show ?thesis using a by simp
qed

lemma first_failure_unique:
  assumes "0 \<le> k" and "k < nEvent"
    and "next_event E iMass k (record_in E iMass smass k) = None"
    and "\<forall>j. 0 \<le> j \<and> j < k \<longrightarrow> next_event E iMass j (record_in E iMass smass j) \<noteq> None"
    and "\<forall>j<m. next_event E iMass (int j) (record_in E iMass smass (int j)) \<noteq> None"
    and "int m = nEvent
          \<or> int m < nEvent \<and> next_event E iMass (int m) (record_in E iMass smass (int m)) = None"
  shows "int m = k"
proof (rule ccontr)
  assume "int m \<noteq> k"
  then consider "int m < k" | "k < int m" by linarith
  then show False
  proof cases
    case 1
    then have "next_event E iMass (int m) (record_in E iMass smass (int m)) \<noteq> None"
      using assms(4) by simp
    moreover have "int m < nEvent" using 1 assms(2) by simp
    ultimately show False using assms(6) by simp
  next
    case 2
    then have "nat k < m" using assms(1) by linarith
    then have "next_event E iMass (int (nat k)) (record_in E iMass smass (int (nat k))) \<noteq> None"
      using assms(5) by blast
    then show False using assms(1,3) by simp
  qed
qed

lemma attempts_first_failure:
  assumes "0 \<le> k" and "k < nEvent"
    and "next_event E iMass k (record_in E iMass smass k) = None"
    and "\<forall>j. 0 \<le> j \<and> j < k \<longrightarrow> next_event E iMass j (record_in E iMass smass j) \<noteq> None"
  shows "attempts (event_trace E iMass smass 0) = nat k + 1"
proof -
  obtain m where ok: "\<forall>j<m. next_event E iMass (int j) (record_in E iMass smass (int j)) \<noteq> None"
    and stop: "int m = nEvent
          \<or> int m < nEvent \<and> next_event E iMass (int m) (record_in E iMass smass (int m)) = None"
    and a: "attempts (event_trace E iMass smass 0) = m + (if int m < nEvent then 1 else 0)"
    using event_trace_summary[of E iMass smass] by blast
  have "int m = k" using assms ok stop by (rule first_failure_unique)
  then show ?thesis using a assms(2) by auto
qed

text \<open>
  Claim C8. The trial count is the constant 1000000, whatever the configuration. When every
  trial generates, the event loop calls \<open>next\<close> exactly 1000000 times; when trial \<open>k\<close> is the
  first to fail, exactly \<open>k + 1\<close> times. A configuration whose generator initialised makes
  the calls of its event loop and no other; one whose generator did not, makes none. The
  record a trial hands to the generator is what \<open>reset\<close> left and the two partons.
\<close>

theorem trial_count:
  "nEvent = 1000000
   \<and> ((\<forall>j. 0 \<le> j \<and> j < nEvent \<longrightarrow>
          next_event E iMass j (event_reset E iMass j @ [quark E smass, antiquark E smass]) \<noteq> None) \<longrightarrow>
        attempts (snd (event_loop E iMass smass 0 (h, []))) = 1000000)
   \<and> (0 \<le> k \<and> k < nEvent
        \<and> next_event E iMass k (event_reset E iMass k @ [quark E smass, antiquark E smass]) = None
        \<and> (\<forall>j. 0 \<le> j \<and> j < k \<longrightarrow>
              next_event E iMass j (event_reset E iMass j @ [quark E smass, antiquark E smass]) \<noteq> None) \<longrightarrow>
        attempts (snd (event_loop E iMass smass 0 (h, []))) = nat k + 1)
   \<and> (init_ok E iMass \<longrightarrow>
        attempts (snd (mass_body E iMass [])) = attempts (snd (event_loop E iMass (masses ! iMass) 0 (h, []))))
   \<and> (\<not> init_ok E iMass \<longrightarrow> attempts (snd (mass_body E iMass [])) = 0)"
proof -
  have t: "snd (event_loop E iMass s 0 (h, [])) = event_trace E iMass s 0" for s
    by (simp add: event_loop_trace)
  have a: "attempts (event_trace E iMass smass 0) = 1000000"
    if "\<forall>j. 0 \<le> j \<and> j < nEvent \<longrightarrow>
          next_event E iMass j (event_reset E iMass j @ [quark E smass, antiquark E smass]) \<noteq> None"
    using attempts_all_ok[of E iMass smass] that by (simp add: record_in_def nEvent_def)
  have b: "attempts (event_trace E iMass smass 0) = nat k + 1"
    if "0 \<le> k \<and> k < nEvent
        \<and> next_event E iMass k (event_reset E iMass k @ [quark E smass, antiquark E smass]) = None
        \<and> (\<forall>j. 0 \<le> j \<and> j < k \<longrightarrow>
              next_event E iMass j (event_reset E iMass j @ [quark E smass, antiquark E smass]) \<noteq> None)"
    using attempts_first_failure[of k E iMass smass] that by (simp add: record_in_def)
  have c: "attempts (snd (mass_body E iMass [])) = attempts (event_trace E iMass (masses ! iMass) 0)"
    if "init_ok E iMass"
    using mass_body_ok[OF that, of "[]"] by (simp add: attempts_append setup_trace_quiet)
  have d: "attempts (snd (mass_body E iMass [])) = 0" if "\<not> init_ok E iMass"
    using mass_body_fail[OF that, of "[]"] by (simp add: setup_trace_quiet)
  have n: "nEvent = 1000000" by (simp add: nEvent_def)
  show ?thesis unfolding t using a b c d n by blast
qed

theorem trial_count_witness:
  "attempts (snd (event_loop collab_steady 0 5 0 (dndy0, []))) = 1000000
   \<and> attempts (snd (event_loop collab_short 0 5 0 (dndy0, []))) = 3
   \<and> attempts (snd (mass_body collab_short 0 [])) = 3
   \<and> attempts (snd (mass_body collab_init_fails 1 [])) = 0"
proof -
  have a: "\<forall>j. 0 \<le> j \<and> j < nEvent \<longrightarrow>
             next_event collab_steady 0 j (event_reset collab_steady 0 j @ [quark collab_steady 5, antiquark collab_steady 5]) \<noteq> None"
    by (simp add: collab_steady_def)
  have b: "0 \<le> (2::int) \<and> 2 < nEvent
        \<and> next_event collab_short 0 2 (event_reset collab_short 0 2 @ [quark collab_short 5, antiquark collab_short 5]) = None
        \<and> (\<forall>j. 0 \<le> j \<and> j < 2 \<longrightarrow>
              next_event collab_short 0 j (event_reset collab_short 0 j @ [quark collab_short 5, antiquark collab_short 5]) \<noteq> None)"
    by (simp add: collab_short_def nEvent_def)
  have c: "init_ok collab_short 0" "\<not> init_ok collab_init_fails 1" "masses ! 0 = 5"
    by (simp_all add: collab_short_def collab_init_fails_def masses_def)
  show ?thesis
    using a b c
      trial_count[of collab_steady 0 5 dndy0 2]
      trial_count[of collab_short 0 5 dndy0 2]
      trial_count[of collab_init_fails 1 5 dndy0 2]
    by simp
qed

lemma scanned_range: "scanned E ev = map (rapidity E) (filter (\<lambda>p. status p \<in> {81..89}) ev)"
  by (simp add: scanned_def primary_range)

lemma fills_main:
  "fills (snd (main E)) =
     (if \<not> init_ok E 0 then []
      else fills (event_trace E 0 (masses ! 0) 0) @
        (if \<not> init_ok E 1 then []
         else fills (event_trace E 1 (masses ! 1) 0) @
           (if \<not> init_ok E 2 then [] else fills (event_trace E 2 (masses ! 2) 0))))"
  by (simp add: main_cases fills_append fills_config header_def)

text \<open>
  Claim C2. The scan of an event record calls \<open>fill\<close> once, with the particle's rapidity, for
  each particle whose status lies in 81..89, in the record's order, and for no other particle.
  The event loop scans the record of every trial that generated, each once and in order: with
  \<open>m\<close> the number of trials that generate before the first failure or the end of the loop,
  the fills of the loop are those scans, one after the other, and the histogram it returns
  is the one it was given with exactly these values filled. The fills of the whole run are
  those of the event loops of the configurations that initialised.
\<close>

theorem fill_iff_primary:
  "particle_loop E ev 0 (h, tr) =
     (foldl (\<lambda>h v. fill h v 1) h (map (rapidity E) (filter (\<lambda>p. status p \<in> {81..89}) ev)),
      tr @ map Hist_fill (map (rapidity E) (filter (\<lambda>p. status p \<in> {81..89}) ev)))
   \<and> (\<exists>m. (\<forall>k<m. next_event E iMass (int k)
                     (event_reset E iMass (int k) @ [quark E smass, antiquark E smass]) \<noteq> None)
        \<and> (int m = nEvent
             \<or> int m < nEvent
               \<and> next_event E iMass (int m)
                    (event_reset E iMass (int m) @ [quark E smass, antiquark E smass]) = None)
        \<and> fills (snd (event_loop E iMass smass 0 (h, tr))) =
            fills tr @
            concat (map (\<lambda>k. map (rapidity E) (filter (\<lambda>p. status p \<in> {81..89})
                          (the (next_event E iMass (int k)
                                 (event_reset E iMass (int k) @ [quark E smass, antiquark E smass])))))
                      [0..<m])
        \<and> fst (event_loop E iMass smass 0 (h, tr)) =
            foldl (\<lambda>h v. fill h v 1) h
              (concat (map (\<lambda>k. map (rapidity E) (filter (\<lambda>p. status p \<in> {81..89})
                          (the (next_event E iMass (int k)
                                 (event_reset E iMass (int k) @ [quark E smass, antiquark E smass])))))
                      [0..<m])))
   \<and> fills (snd (main E)) =
       (if \<not> init_ok E 0 then []
        else fills (snd (event_loop E 0 (masses ! 0) 0 (dndy0, []))) @
          (if \<not> init_ok E 1 then []
           else fills (snd (event_loop E 1 (masses ! 1) 0 (dndy0, []))) @
             (if \<not> init_ok E 2 then []
              else fills (snd (event_loop E 2 (masses ! 2) 0 (dndy0, []))))))"
proof -
  have a: "particle_loop E ev 0 (h, tr) =
     (foldl (\<lambda>h v. fill h v 1) h (map (rapidity E) (filter (\<lambda>p. status p \<in> {81..89}) ev)),
      tr @ map Hist_fill (map (rapidity E) (filter (\<lambda>p. status p \<in> {81..89}) ev)))"
    using particle_loop_drop[of E ev 0 h tr]
    by (simp add: scanned_range fill_all_def)
  obtain m where ok: "\<forall>k<m. next_event E iMass (int k) (record_in E iMass smass (int k)) \<noteq> None"
    and stop: "int m = nEvent
          \<or> int m < nEvent \<and> next_event E iMass (int m) (record_in E iMass smass (int m)) = None"
    and f: "fills (event_trace E iMass smass 0) =
         concat (map (\<lambda>k. scanned E (the (next_event E iMass (int k) (record_in E iMass smass (int k)))))
                   [0..<m])"
    using event_trace_summary[of E iMass smass] by blast
  have b: "fills (snd (event_loop E iMass smass 0 (h, tr))) =
            fills tr @
            concat (map (\<lambda>k. map (rapidity E) (filter (\<lambda>p. status p \<in> {81..89})
                          (the (next_event E iMass (int k)
                                 (event_reset E iMass (int k) @ [quark E smass, antiquark E smass])))))
                      [0..<m])"
    using f by (simp add: event_loop_trace fills_append scanned_range record_in_def)
  have c: "fst (event_loop E iMass smass 0 (h, tr)) =
            foldl (\<lambda>h v. fill h v 1) h
              (concat (map (\<lambda>k. map (rapidity E) (filter (\<lambda>p. status p \<in> {81..89})
                          (the (next_event E iMass (int k)
                                 (event_reset E iMass (int k) @ [quark E smass, antiquark E smass])))))
                      [0..<m]))"
    using f by (simp add: event_loop_trace fill_all_def scanned_range record_in_def)
  have d: "fills (snd (main E)) =
       (if \<not> init_ok E 0 then []
        else fills (snd (event_loop E 0 (masses ! 0) 0 (dndy0, []))) @
          (if \<not> init_ok E 1 then []
           else fills (snd (event_loop E 1 (masses ! 1) 0 (dndy0, []))) @
             (if \<not> init_ok E 2 then []
              else fills (snd (event_loop E 2 (masses ! 2) 0 (dndy0, []))))))"
    using fills_main[of E] by (simp add: event_trace_def)
  have e: "\<forall>k<m. next_event E iMass (int k)
                     (event_reset E iMass (int k) @ [quark E smass, antiquark E smass]) \<noteq> None"
    using ok by (simp add: record_in_def)
  have g: "int m = nEvent
             \<or> int m < nEvent
               \<and> next_event E iMass (int m)
                    (event_reset E iMass (int m) @ [quark E smass, antiquark E smass]) = None"
    using stop by (simp add: record_in_def)
  show ?thesis using a b c d e g by blast
qed

theorem fill_iff_primary_witness:
  "snd (particle_loop collab_short
          [hadron 83 (1 / 2), hadron 91 3, hadron 84 (- (1 / 2)), hadron 80 1, hadron 90 2, hadron 89 4]
          0 (dndy0, []))
     = [Hist_fill (1 / 2), Hist_fill (- (1 / 2)), Hist_fill 4]
   \<and> fills (snd (event_loop collab_short 0 5 0 (dndy0, []))) = [1 / 2, - (1 / 2), 1 / 2, - (1 / 2)]
   \<and> fst (event_loop collab_short 0 5 0 (dndy0, [])) =
       foldl (\<lambda>h v. fill h v 1) dndy0 [1 / 2, - (1 / 2), 1 / 2, - (1 / 2)]"
proof -
  note T = fill_iff_primary[of collab_short
      "[hadron 83 (1 / 2), hadron 91 3, hadron 84 (- (1 / 2)), hadron 80 1, hadron 90 2, hadron 89 4]"
      dndy0 "[]" 0 5]
  have r: "rapidity collab_short = pz" by (simp add: collab_short_def)
  have n: "next_event collab_short 0 k ev =
            (if k < 2 then Some (ev @ [hadron 83 (1 / 2), hadron 91 3, hadron 84 (- (1 / 2))]) else None)"
    for k ev
    by (simp add: collab_short_def)
  have s: "status (quark collab_short 5) = 23" "status (antiquark collab_short 5) = 23"
      "status system_entry = - 11"
    by (simp_all add: quark_def antiquark_def Let_def system_entry_def)
  have z: "event_reset collab_short 0 k = [system_entry]" for k
    by (simp add: collab_short_def)
  have v: "map pz (filter (\<lambda>p. status p \<in> {81..89})
             (the (next_event collab_short 0 (int k)
                    (event_reset collab_short 0 (int k) @ [quark collab_short 5, antiquark collab_short 5]))))
           = [1 / 2, - (1 / 2)]" if "k < 2" for k
    using that by (simp add: n s z hadron_def)
  have a: "snd (particle_loop collab_short
          [hadron 83 (1 / 2), hadron 91 3, hadron 84 (- (1 / 2)), hadron 80 1, hadron 90 2, hadron 89 4]
          0 (dndy0, []))
     = [Hist_fill (1 / 2), Hist_fill (- (1 / 2)), Hist_fill 4]"
    using T by (simp add: r hadron_def)
  obtain m where ok: "\<forall>k<m. next_event collab_short 0 (int k)
                     (event_reset collab_short 0 (int k) @ [quark collab_short 5, antiquark collab_short 5]) \<noteq> None"
    and stop: "int m = nEvent
             \<or> int m < nEvent
               \<and> next_event collab_short 0 (int m)
                    (event_reset collab_short 0 (int m) @ [quark collab_short 5, antiquark collab_short 5]) = None"
    and f: "fills (snd (event_loop collab_short 0 5 0 (dndy0, []))) =
            fills [] @
            concat (map (\<lambda>k. map (rapidity collab_short) (filter (\<lambda>p. status p \<in> {81..89})
                          (the (next_event collab_short 0 (int k)
                                 (event_reset collab_short 0 (int k) @ [quark collab_short 5, antiquark collab_short 5])))))
                      [0..<m])"
    and g: "fst (event_loop collab_short 0 5 0 (dndy0, [])) =
            foldl (\<lambda>h v. fill h v 1) dndy0
              (concat (map (\<lambda>k. map (rapidity collab_short) (filter (\<lambda>p. status p \<in> {81..89})
                          (the (next_event collab_short 0 (int k)
                                 (event_reset collab_short 0 (int k) @ [quark collab_short 5, antiquark collab_short 5])))))
                      [0..<m]))"
    using T by blast
  have "m \<le> 2"
  proof (rule ccontr)
    assume "\<not> m \<le> 2"
    then have "2 < m" by simp
    then have "next_event collab_short 0 (int 2)
                 (event_reset collab_short 0 (int 2) @ [quark collab_short 5, antiquark collab_short 5]) \<noteq> None"
      using ok by blast
    then show False by (simp add: n)
  qed
  moreover have "2 \<le> m"
  proof (rule ccontr)
    assume "\<not> 2 \<le> m"
    then have lt: "m < 2" by simp
    then have "int m \<noteq> nEvent" by (simp add: nEvent_def)
    then have "next_event collab_short 0 (int m)
                 (event_reset collab_short 0 (int m) @ [quark collab_short 5, antiquark collab_short 5]) = None"
      using stop by simp
    then show False using lt by (simp add: n)
  qed
  ultimately have m: "m = 2" by simp
  have u: "[0..<2] = [0, 1]" by (simp add: upt_conv_Cons)
  have c: "concat (map (\<lambda>k. map (rapidity collab_short) (filter (\<lambda>p. status p \<in> {81..89})
                          (the (next_event collab_short 0 (int k)
                                 (event_reset collab_short 0 (int k) @ [quark collab_short 5, antiquark collab_short 5])))))
                      [0..<m]) = [1 / 2, - (1 / 2), 1 / 2, - (1 / 2)]"
    unfolding m u r using v[of 0] v[of 1] by simp
  show ?thesis using a f g unfolding c by simp
qed

text \<open>
  Claim C3. A configuration that is reached and initialises, and in which some trial
  \<open>k < nEvent\<close> fails to generate. Its first failing trial \<open>k'\<close> is the last it attempts: in
  the trace of the whole run, the actions of the configuration after its initialisation are
  those of the \<open>k'\<close> trials that generated and the reset and appends of trial \<open>k'\<close> (\<open>pre\<close>),
  the failed \<open>next\<close>, the error line, the statistics, the printed histogram and the \<open>add\<close> of
  that histogram, which holds exactly the fills made before the failure. What follows in the
  run is the next configuration, from the construction of its generator on, or the plot and
  the return of 0 when the configuration was the last: the run is not aborted.
\<close>

theorem generation_failure_recovers:
  assumes "iMass < length masses" and "\<forall>j\<le>iMass. init_ok E j" and "0 \<le> k" and "k < nEvent"
    and "next_event E iMass k
           (event_reset E iMass k @ [quark E (masses ! iMass), antiquark E (masses ! iMass)]) = None"
  shows "\<exists>k' before pre h after.
           0 \<le> k' \<and> k' \<le> k
         \<and> next_event E iMass k'
             (event_reset E iMass k' @ [quark E (masses ! iMass), antiquark E (masses ! iMass)]) = None
         \<and> snd (main E) =
             before @ setup_trace E iMass @ pre @
               [Pythia_next (event_reset E iMass k' @ [quark E (masses ! iMass), antiquark E (masses ! iMass)]) None,
                Cout_error, Pythia_stat, Cout_hist h,
                Hpl_add h (''--,'' @ plotColours ! iMass)
                  (to_string_2dp (double_of (masses ! iMass)) @ '' GeV string'')] @ after
         \<and> list_all trial_action pre \<and> attempts pre = nat k'
         \<and> h = foldl (\<lambda>h v. fill h v 1)
                 (Hist_new ''Rapidity distribution dn/dy of primary hadrons'' 100 (- 10) 10) (fills pre)
         \<and> length (added before) = iMass
         \<and> (iMass + 1 < length masses \<longrightarrow> take 7 after = setup_trace E (iMass + 1))
         \<and> (iMass + 1 = length masses \<longrightarrow> after = [Hpl_plot] \<and> fst (main E) = 0)
         \<and> mass_body E iMass tr =
             (None, tr @ setup_trace E iMass @ pre @
               [Pythia_next (event_reset E iMass k' @ [quark E (masses ! iMass), antiquark E (masses ! iMass)]) None,
                Cout_error, Pythia_stat, Cout_hist h,
                Hpl_add h (''--,'' @ plotColours ! iMass)
                  (to_string_2dp (double_of (masses ! iMass)) @ '' GeV string'')])"
proof -
  let ?s = "masses ! iMass"
  let ?R = "\<lambda>j. event_reset E iMass j @ [quark E ?s, antiquark E ?s]"
  have init: "init_ok E iMass" using assms(2) by simp
  obtain m where ok: "\<forall>j<m. next_event E iMass (int j) (record_in E iMass ?s (int j)) \<noteq> None"
    and stop: "int m = nEvent
          \<or> int m < nEvent \<and> next_event E iMass (int m) (record_in E iMass ?s (int m)) = None"
    and tr: "event_trace E iMass ?s 0 =
         concat (map (\<lambda>j. trial_trace E iMass ?s (int j)) [0..<m]) @
         (if int m < nEvent then trial_trace E iMass ?s (int m) else [])"
    using event_trace_summary[of E iMass ?s] by blast
  have mk: "int m \<le> k"
  proof (rule ccontr)
    assume "\<not> int m \<le> k"
    then have "nat k < m" using assms(3) by linarith
    then have "next_event E iMass (int (nat k)) (record_in E iMass ?s (int (nat k))) \<noteq> None"
      using ok by blast
    then show False using assms(3,5) by (simp add: record_in_def)
  qed
  then have lt: "int m < nEvent" using assms(4) by simp
  then have fail: "next_event E iMass (int m) (record_in E iMass ?s (int m)) = None"
    using stop by simp
  define pre where "pre =
    concat (map (\<lambda>j. trial_trace E iMass ?s (int j)) [0..<m]) @
    [Event_reset (event_reset E iMass (int m)), Event_append (quark E ?s), Event_append (antiquark E ?s)]"
  define h where "h = fill_all dndy0 (fills (event_trace E iMass ?s 0))"
  let ?tail = "[Pythia_next (?R (int m)) None, Cout_error, Pythia_stat, Cout_hist h,
                Hpl_add h (''--,'' @ plotColours ! iMass)
                  (to_string_2dp (double_of ?s) @ '' GeV string'')]"
  have et: "event_trace E iMass ?s 0 = pre @ [Pythia_next (?R (int m)) None, Cout_error]"
    unfolding tr pre_def using lt by (simp add: trial_trace_fail[OF fail] record_in_def)
  have ct: "config_trace E iMass = setup_trace E iMass @ pre @ ?tail"
    unfolding h_def by (simp add: config_trace_ok[OF init] et)
  have p1: "list_all trial_action pre"
    unfolding pre_def by (simp add: actions_trials trial_action_def)
  have p2: "attempts pre = nat (int m)"
    unfolding pre_def by (simp add: attempts_append attempts_trials)
  have "fills (event_trace E iMass ?s 0) = fills pre"
    unfolding et by (simp add: fills_append)
  then have p3: "h = foldl (\<lambda>h v. fill h v 1)
                 (Hist_new ''Rapidity distribution dn/dy of primary hadrons'' 100 (- 10) 10) (fills pre)"
    by (simp add: h_def fill_all_def dndy0_def)
  obtain before after where m1: "snd (main E) = before @ config_trace E iMass @ after"
    and m0: "added before = map (config_series E) [0..<iMass]"
    and m2: "iMass + 1 < length masses \<longrightarrow> take 7 after = setup_trace E (iMass + 1)"
    and m3: "iMass + 1 = length masses \<longrightarrow> after = [Hpl_plot] \<and> fst (main E) = 0"
    using main_reaches[OF assms(1,2)] by blast
  have q1: "snd (main E) = before @ setup_trace E iMass @ pre @ ?tail @ after"
    unfolding m1 ct by simp
  have q0: "length (added before) = iMass" unfolding m0 by simp
  have q2: "mass_body E iMass tr = (None, tr @ setup_trace E iMass @ pre @ ?tail)"
    using mass_body_shift[of E iMass tr] mass_body_ok[OF init, of "[]"] by (simp add: ct)
  have q3: "next_event E iMass (int m) (?R (int m)) = None"
    using fail by (simp add: record_in_def)
  have q4: "0 \<le> int m" by simp
  show ?thesis
    using q4 mk q3 q1 p1 p2 p3 q0 m2 m3 q2 by blast
qed

theorem generation_failure_recovers_witness:
  "0 < length masses \<and> init_ok collab_short 0 \<and> (0::int) \<le> 2 \<and> 2 < nEvent
   \<and> next_event collab_short 0 2
       (event_reset collab_short 0 2 @ [quark collab_short (masses ! 0), antiquark collab_short (masses ! 0)]) = None
   \<and> (\<exists>k' before pre h after.
           0 \<le> k' \<and> k' \<le> 2
         \<and> snd (main collab_short) =
             before @ setup_trace collab_short 0 @ pre @
               [Pythia_next (event_reset collab_short 0 k' @ [quark collab_short (masses ! 0), antiquark collab_short (masses ! 0)]) None,
                Cout_error, Pythia_stat, Cout_hist h,
                Hpl_add h (''--,'' @ plotColours ! 0)
                  (to_string_2dp (double_of (masses ! 0)) @ '' GeV string'')] @ after
         \<and> attempts pre = nat k'
         \<and> take 7 after = setup_trace collab_short (0 + 1))"
proof -
  have a: "0 < length masses" by (simp add: masses_def)
  have b: "\<forall>j\<le>0. init_ok collab_short j" by (simp add: collab_short_def)
  have c: "(0::int) \<le> 2" by simp
  have d: "2 < nEvent" by (simp add: nEvent_def)
  have e: "next_event collab_short 0 2
       (event_reset collab_short 0 2 @ [quark collab_short (masses ! 0), antiquark collab_short (masses ! 0)]) = None"
    by (simp add: collab_short_def)
  have l: "0 + 1 < length masses" by (simp add: masses_def)
  have i: "init_ok collab_short 0" by (simp add: collab_short_def)
  show ?thesis
    using a i c d e l generation_failure_recovers[OF a b c d e, of "[]"] by blast
qed

section \<open>What a trial and a configuration start from\<close>

lemma parton_fields:
  "pid (quark E smass) = qid" "pid (antiquark E smass) = - qid"
  "status (quark E smass) = 23" "status (antiquark E smass) = 23"
  by (simp_all add: quark_def antiquark_def Let_def)






section \<open>The series handed to the plot\<close>

text \<open>
  Claim C4. Every histogram handed to the plot object has 100 bins over the range from -10 to
  10, so the composer of the specification accepts every one of them: adding them in order
  never yields \<open>GeometryMismatch\<close>.
\<close>

theorem shared_geometry:
  "list_all (\<lambda>s. geometry (histogram s) = (100, - 10, 10)) (added (snd (main E)))
   \<and> add_all \<lparr>frameTitle = ''Rapidity distributions of primary hadrons for differing string energies'',
              xLabel = ''y'', yLabel = ''n'', series_list = []\<rparr>
        (added (snd (main E))) =
      Inr \<lparr>frameTitle = ''Rapidity distributions of primary hadrons for differing string energies'',
           xLabel = ''y'', yLabel = ''n'', series_list = added (snd (main E))\<rparr>"
  using add_all_same[OF main_geometry, of
      "\<lparr>frameTitle = ''Rapidity distributions of primary hadrons for differing string energies'',
        xLabel = ''y'', yLabel = ''n'', series_list = []\<rparr>" E]
    main_geometry[of E]
  by simp

theorem shared_geometry_witness:
  "length (added (snd (main collab_short))) = 3
   \<and> list_all (\<lambda>s. geometry (histogram s) = (100, - 10, 10)) (added (snd (main collab_short)))
   \<and> add_all \<lparr>frameTitle = ''Rapidity distributions of primary hadrons for differing string energies'',
              xLabel = ''y'', yLabel = ''n'', series_list = []\<rparr>
        (added (snd (main collab_short))) \<noteq> Inl GeometryMismatch"
proof -
  have "length (added (snd (main collab_short))) = 3"
    by (simp add: added_main collab_short_def)
  then show ?thesis using shared_geometry[of collab_short] by simp
qed

text \<open>
  Claim C5. The run returns 0 exactly when the three initialisations succeed. Such a run adds
  three series, for the masses 5, 20 and 100 in this order, with the labels and style tokens
  below, each on a histogram of 100 bins over the range from -10 to 10, and ends with the plot.
\<close>

theorem three_series:
  "(fst (main E) = 0) = (init_ok E 0 \<and> init_ok E 1 \<and> init_ok E 2)
   \<and> (fst (main E) = 0 \<longrightarrow>
        map (\<lambda>s. (geometry (histogram s), styleToken s, label s)) (added (snd (main E))) =
          [((100, - 10, 10), ''--,steelblue'', ''5.00 GeV string''),
           ((100, - 10, 10), ''--,seagreen'', ''20.00 GeV string''),
           ((100, - 10, 10), ''--,indianred'', ''100.00 GeV string'')]
        \<and> masses = [5, 20, 100]
        \<and> last (snd (main E)) = Hpl_plot)"
proof -
  have a: "(fst (main E) = 0) = (init_ok E 0 \<and> init_ok E 1 \<and> init_ok E 2)"
    by (simp add: exit_main)
  have s: "styleToken (config_series E 0) = ''--,steelblue''"
      "styleToken (config_series E 1) = ''--,seagreen''"
      "styleToken (config_series E 2) = ''--,indianred''"
    by (simp_all add: config_series_def plotColours_def)
  have l: "label (config_series E 0) = ''5.00 GeV string''"
      "label (config_series E 1) = ''20.00 GeV string''"
      "label (config_series E 2) = ''100.00 GeV string''"
    by (simp_all add: config_series_def masses_def labels)
  have b: "map (\<lambda>s. (geometry (histogram s), styleToken s, label s)) (added (snd (main E))) =
          [((100, - 10, 10), ''--,steelblue'', ''5.00 GeV string''),
           ((100, - 10, 10), ''--,seagreen'', ''20.00 GeV string''),
           ((100, - 10, 10), ''--,indianred'', ''100.00 GeV string'')]
        \<and> masses = [5, 20, 100] \<and> last (snd (main E)) = Hpl_plot"
    if "init_ok E 0 \<and> init_ok E 1 \<and> init_ok E 2"
  proof -
    have "added (snd (main E)) = [config_series E 0, config_series E 1, config_series E 2]"
      using that by (simp add: added_main)
    moreover have "last (snd (main E)) = Hpl_plot"
      using that by (simp add: main_cases)
    ultimately show ?thesis
      by (simp add: config_series_geometry s l masses_def del: One_nat_def)
  qed
  show ?thesis using a b by blast
qed

theorem three_series_witness:
  "fst (main collab_short) = 0
   \<and> map label (added (snd (main collab_short))) =
       [''5.00 GeV string'', ''20.00 GeV string'', ''100.00 GeV string'']
   \<and> map styleToken (added (snd (main collab_short))) =
       [''--,steelblue'', ''--,seagreen'', ''--,indianred'']
   \<and> fst (main collab_steady) = 0
   \<and> length (added (snd (main collab_steady))) = 3"
proof -
  have a: "init_ok collab_short 0 \<and> init_ok collab_short 1 \<and> init_ok collab_short 2"
    by (simp add: collab_short_def)
  have b: "init_ok collab_steady 0 \<and> init_ok collab_steady 1 \<and> init_ok collab_steady 2"
    by (simp add: collab_steady_def)
  have c: "map label xs = map (\<lambda>t. snd (snd t)) (map (\<lambda>s. (geometry (histogram s), styleToken s, label s)) xs)"
      "map styleToken xs = map (\<lambda>t. fst (snd t)) (map (\<lambda>s. (geometry (histogram s), styleToken s, label s)) xs)"
      "length xs = length (map (\<lambda>s. (geometry (histogram s), styleToken s, label s)) xs)"
    for xs :: "series list"
    by simp_all
  have s: "fst (main collab_short) = 0" using three_series[of collab_short] a by blast
  have t: "fst (main collab_steady) = 0" using three_series[of collab_steady] b by blast
  show ?thesis
    using s t three_series[of collab_short] three_series[of collab_steady]
    by (simp only: c) simp
qed

text \<open>
  Claim C6. When the initialisation of configuration \<open>iMass\<close> is the first to fail, the run
  returns 1, its last action is that failed initialisation, the plot is never written, only
  the \<open>iMass\<close> earlier configurations have added a series, and the failing configuration
  itself adds none and runs no trial.
\<close>

theorem init_failure_aborts:
  assumes "iMass < length masses" and "\<not> init_ok E iMass" and "\<forall>j<iMass. init_ok E j"
  shows "fst (main E) = 1
       \<and> Hpl_plot \<notin> set (snd (main E))
       \<and> last (snd (main E)) = Pythia_init False
       \<and> length (added (snd (main E))) = iMass
       \<and> mass_body E iMass tr = (Some 1, tr @ snd (mass_body E iMass []))
       \<and> added (snd (mass_body E iMass [])) = []
       \<and> attempts (snd (mass_body E iMass [])) = 0"
proof -
  have i: "iMass = 0 \<or> iMass = 1 \<or> iMass = 2" using assms(1) by (auto simp: masses_def)
  have a: "fst (main E) = 1" using i assms(2) by (auto simp: exit_main)
  have "filter is_plot (snd (main E)) = []" using i assms(2) by (auto simp: main_plots)
  then have b: "Hpl_plot \<notin> set (snd (main E))"
    by (auto simp: filter_empty_conv is_plot_def)
  have l: "config_trace E iMass \<noteq> []" "last (config_trace E iMass) = Pythia_init False"
    using config_trace_last[OF assms(2)] by simp_all
  have c: "last (snd (main E)) = Pythia_init False"
    using i
  proof (elim disjE)
    assume "iMass = 0"
    then show ?thesis using l assms(2) by (simp add: main_cases)
  next
    assume "iMass = 1"
    then show ?thesis using l assms(2,3) by (simp add: main_cases)
  next
    assume "iMass = 2"
    then have "init_ok E 0" "init_ok E 1" using assms(3) by simp_all
    then show ?thesis using l assms(2) \<open>iMass = 2\<close> by (simp add: main_cases)
  qed
  have d: "length (added (snd (main E))) = iMass"
    using i
  proof (elim disjE)
    assume "iMass = 0"
    then show ?thesis using assms(2) by (simp add: added_main)
  next
    assume "iMass = 1"
    then show ?thesis using assms(2,3) by (simp add: added_main)
  next
    assume "iMass = 2"
    then have "init_ok E 0" "init_ok E 1" using assms(3) by simp_all
    then show ?thesis using assms(2) \<open>iMass = 2\<close> by (simp add: added_main)
  qed
  have e: "mass_body E iMass tr = (Some 1, tr @ snd (mass_body E iMass []))"
    using assms(2) by (simp add: mass_body_fail)
  have f: "added (snd (mass_body E iMass [])) = []" "attempts (snd (mass_body E iMass [])) = 0"
    using assms(2) by (simp_all add: mass_body_fail added_setup setup_trace_quiet)
  show ?thesis using a b c d e f by blast
qed

theorem init_failure_aborts_witness:
  "1 < length masses \<and> \<not> init_ok collab_init_fails 1 \<and> init_ok collab_init_fails 0
   \<and> fst (main collab_init_fails) = 1
   \<and> Hpl_plot \<notin> set (snd (main collab_init_fails))
   \<and> last (snd (main collab_init_fails)) = Pythia_init False
   \<and> length (added (snd (main collab_init_fails))) = 1"
proof -
  have a: "1 < length masses" by (simp add: masses_def)
  have b: "\<not> init_ok collab_init_fails 1" by (simp add: collab_init_fails_def)
  have c: "\<forall>j<1. init_ok collab_init_fails j" by (simp add: collab_init_fails_def)
  have d: "init_ok collab_init_fails 0" by (simp add: collab_init_fails_def)
  show ?thesis using a b d init_failure_aborts[OF a b c, of "[]"] by blast
qed

text \<open>
  Claim C7 as stated fails: when the second initialisation fails the run returns 1 and the
  plot is not written at all.
\<close>

theorem render_once_counterexample:
  "fst (main collab_init_fails) = 1 \<and> length (filter is_plot (snd (main collab_init_fails))) = 0"
  by (simp add: exit_main main_plots collab_init_fails_def)

text \<open>
  Claim C7, amended. The trace of every run is the construction of the plot object and the
  one call of \<open>frame\<close>, then a body holding every \<open>add\<close> and neither a \<open>frame\<close> nor a \<open>plot\<close>, then
  the call of \<open>plot\<close> when the three initialisations succeeded and nothing otherwise. So
  \<open>frame\<close> is called exactly once and before any \<open>add\<close>, no \<open>add\<close> follows a \<open>plot\<close>, and \<open>plot\<close>
  is called once in a run that returns 0 and never in a run that returns 1.
\<close>

theorem main_trace_shape:
  "\<exists>body. snd (main E) =
       [HistPlot_ctor ''rapidityplot'',
        Hpl_frame ''rapidityplot''
          ''Rapidity distributions of primary hadrons for differing string energies'' ''y'' ''n'']
       @ body @ (if init_ok E 0 \<and> init_ok E 1 \<and> init_ok E 2 then [Hpl_plot] else [])
     \<and> (\<forall>a \<in> set body. \<not> is_frame a \<and> \<not> is_plot a)
     \<and> added (snd (main E)) = added body
     \<and> length (filter is_frame (snd (main E))) = 1
     \<and> length (filter is_plot (snd (main E))) = (if init_ok E 0 \<and> init_ok E 1 \<and> init_ok E 2 then 1 else 0)
     \<and> fst (main E) = (if init_ok E 0 \<and> init_ok E 1 \<and> init_ok E 2 then 0 else 1)"
proof -
  define body where "body =
     (if \<not> init_ok E 0 then config_trace E 0
      else if \<not> init_ok E 1 then config_trace E 0 @ config_trace E 1
      else config_trace E 0 @ config_trace E 1 @ config_trace E 2)"
  have a: "snd (main E) = header @ body @ (if init_ok E 0 \<and> init_ok E 1 \<and> init_ok E 2 then [Hpl_plot] else [])"
    by (simp add: main_cases body_def)
  have b: "\<forall>a \<in> set body. \<not> is_frame a \<and> \<not> is_plot a"
    using config_trace_hpl[of _ E] by (auto simp: body_def)
  have c: "added (snd (main E)) = added body"
    unfolding a by (simp add: added_append added_header)
  show ?thesis
    using a b c main_frames[of E] main_plots[of E] exit_main[of E]
    by (intro exI[of _ body]) (simp add: header_def)
qed

theorem main_trace_shape_witness:
  "(\<exists>body. snd (main collab_short) =
       [HistPlot_ctor ''rapidityplot'',
        Hpl_frame ''rapidityplot''
          ''Rapidity distributions of primary hadrons for differing string energies'' ''y'' ''n'']
       @ body @ [Hpl_plot]
     \<and> length (added body) = 3)
   \<and> length (filter is_plot (snd (main collab_short))) = 1
   \<and> length (filter is_plot (snd (main collab_init_fails))) = 0
   \<and> length (filter is_frame (snd (main collab_init_fails))) = 1"
proof -
  have a: "init_ok collab_short 0 \<and> init_ok collab_short 1 \<and> init_ok collab_short 2"
    by (simp add: collab_short_def)
  have b: "\<not> (init_ok collab_init_fails 0 \<and> init_ok collab_init_fails 1 \<and> init_ok collab_init_fails 2)"
    by (simp add: collab_init_fails_def)
  have l: "length (added (snd (main collab_short))) = 3"
    by (simp add: added_main collab_short_def)
  obtain body where s: "snd (main collab_short) =
       [HistPlot_ctor ''rapidityplot'',
        Hpl_frame ''rapidityplot''
          ''Rapidity distributions of primary hadrons for differing string energies'' ''y'' ''n'']
       @ body @ [Hpl_plot]"
    and d: "added (snd (main collab_short)) = added body"
    and p: "length (filter is_plot (snd (main collab_short))) = 1"
    using main_trace_shape[of collab_short] a by auto
  have e: "length (filter is_plot (snd (main collab_init_fails))) = 0"
      "length (filter is_frame (snd (main collab_init_fails))) = 1"
    using main_trace_shape[of collab_init_fails] b by auto
  have "length (added body) = 3" using l d by simp
  then show ?thesis using s p e by blast
qed

section \<open>The label of a series\<close>

lemma digit_char_in: "d < 10 \<Longrightarrow> digit_char d \<in> set ''0123456789''"
  unfolding digit_char_def by (rule nth_mem) simp

lemma digit_value_char: "d < 10 \<Longrightarrow> digit_value (digit_char d) = d"
proof -
  assume "d < 10"
  then have "d = 0 \<or> d = 1 \<or> d = 2 \<or> d = 3 \<or> d = 4 \<or> d = 5 \<or> d = 6 \<or> d = 7 \<or> d = 8 \<or> d = 9"
    by arith
  then show ?thesis
    by (elim disjE) (simp_all add: digit_value_def digit_char_def)
qed

lemma is_digit_cases:
  "is_digit c \<Longrightarrow>
   c = CHR ''0'' \<or> c = CHR ''1'' \<or> c = CHR ''2'' \<or> c = CHR ''3'' \<or> c = CHR ''4'' \<or>
   c = CHR ''5'' \<or> c = CHR ''6'' \<or> c = CHR ''7'' \<or> c = CHR ''8'' \<or> c = CHR ''9''"
  by (simp add: is_digit_def)

lemma digit_value_less: "is_digit c \<Longrightarrow> digit_value c < 10"
  by (drule is_digit_cases) (elim disjE, simp_all add: digit_value_def)

lemma digit_char_value: "is_digit c \<Longrightarrow> digit_char (digit_value c) = c"
  by (drule is_digit_cases) (elim disjE, simp_all add: digit_value_def digit_char_def)

lemma digit_value_pos: "is_digit c \<Longrightarrow> c \<noteq> CHR ''0'' \<Longrightarrow> 0 < digit_value c"
  by (drule is_digit_cases) (elim disjE, simp_all add: digit_value_def)

lemma digit_char_zero: "d < 10 \<Longrightarrow> 0 < d \<Longrightarrow> digit_char d \<noteq> CHR ''0''"
proof -
  assume "d < 10" and "0 < d"
  then have "d = 1 \<or> d = 2 \<or> d = 3 \<or> d = 4 \<or> d = 5 \<or> d = 6 \<or> d = 7 \<or> d = 8 \<or> d = 9"
    by arith
  then show ?thesis
    by (elim disjE) (simp_all add: digit_char_def)
qed

lemma decimal_snoc: "decimal (ds @ [c]) = 10 * decimal ds + digit_value c"
  by (simp add: decimal_def)

lemma digits_nonempty: "digits n \<noteq> []"
  by (subst digits.simps) simp

lemma digit_char_is_digit: "d < 10 \<Longrightarrow> is_digit (digit_char d)"
  unfolding is_digit_def by (rule digit_char_in)

lemma digits_all: "list_all is_digit (digits n)"
proof (induction n rule: digits.induct)
  case (1 n)
  show ?case
  proof (cases "n < 10")
    case True
    then show ?thesis
      using digit_char_is_digit[of n] by (subst digits.simps) simp
  next
    case False
    have "is_digit (digit_char (n mod 10))" by (rule digit_char_is_digit) simp
    then show ?thesis
      using 1[OF False] False by (subst digits.simps) simp
  qed
qed

lemma decimal_digits: "decimal (digits n) = n"
proof (induction n rule: digits.induct)
  case (1 n)
  show ?case
  proof (cases "n < 10")
    case True
    then show ?thesis
      using digit_value_char[of n] by (subst digits.simps) (simp add: decimal_def)
  next
    case False
    have "digit_value (digit_char (n mod 10)) = n mod 10" by (rule digit_value_char) simp
    then show ?thesis
      using 1[OF False] False by (subst digits.simps) (simp add: decimal_snoc)
  qed
qed

lemma digits_hd: "0 < n \<Longrightarrow> hd (digits n) \<noteq> CHR ''0''"
proof (induction n rule: digits.induct)
  case (1 n)
  show ?case
  proof (cases "n < 10")
    case True
    then show ?thesis
      using digit_char_zero[of n] 1(2) by (subst digits.simps) simp
  next
    case False
    then have "0 < n div 10" by simp
    then have "hd (digits (n div 10)) \<noteq> CHR ''0''" using 1(1)[OF False] by simp
    then show ?thesis
      using False digits_nonempty[of "n div 10"] by (subst digits.simps) simp
  qed
qed

lemma digits_zero: "digits 0 = ''0''"
  by (subst digits.simps) (simp add: digit_char_def)

lemma digits_canonical: "canonical (digits n)"
proof (cases "n = 0")
  case True
  then show ?thesis by (simp add: digits_zero canonical_def is_digit_def)
next
  case False
  then show ?thesis
    using digits_hd[of n] by (simp add: canonical_def digits_nonempty digits_all)
qed

lemma decimal_pos:
  "ds \<noteq> [] \<Longrightarrow> list_all is_digit ds \<Longrightarrow> hd ds \<noteq> CHR ''0'' \<Longrightarrow> 0 < decimal ds"
proof (induction ds rule: rev_induct)
  case Nil
  then show ?case by simp
next
  case (snoc c ds)
  show ?case
  proof (cases "ds = []")
    case True
    then show ?thesis
      using snoc(2,3,4) digit_value_pos[of c] by (simp add: decimal_def)
  next
    case False
    then have "0 < decimal ds" using snoc by simp
    then show ?thesis by (simp add: decimal_snoc)
  qed
qed

lemma digits_decimal: "canonical ds \<Longrightarrow> digits (decimal ds) = ds"
proof (induction ds rule: rev_induct)
  case Nil
  then show ?case by (simp add: canonical_def)
next
  case (snoc c ds)
  have c: "is_digit c" using snoc(2) by (simp add: canonical_def)
  show ?case
  proof (cases "ds = []")
    case True
    have "decimal [c] = digit_value c" by (simp add: decimal_def)
    then show ?thesis
      using True digit_value_less[OF c] digit_char_value[OF c] by (subst digits.simps) simp
  next
    case False
    then have ne: "ds @ [c] \<noteq> ''0''" by (cases ds) simp_all
    then have h: "hd ds \<noteq> CHR ''0''" using snoc(2) False by (simp add: canonical_def)
    have a: "list_all is_digit ds" using snoc(2) by (simp add: canonical_def)
    have can: "canonical ds" using False a h by (simp add: canonical_def)
    have pos: "0 < decimal ds" using False a h by (rule decimal_pos)
    have lt: "digit_value c < 10" using c by (rule digit_value_less)
    have "\<not> decimal (ds @ [c]) < 10" using pos by (simp add: decimal_snoc)
    moreover have "decimal (ds @ [c]) div 10 = decimal ds" using lt by (simp add: decimal_snoc)
    moreover have "decimal (ds @ [c]) mod 10 = digit_value c" using lt by (simp add: decimal_snoc)
    ultimately show ?thesis
      using snoc(1)[OF can] digit_char_value[OF c] by (subst digits.simps) simp
  qed
qed

lemma round_half_even_close: "\<bar>of_int (round_half_even x) - x\<bar> \<le> 1 / 2"
proof -
  have "of_int \<lfloor>x\<rfloor> \<le> x" "x < of_int \<lfloor>x\<rfloor> + 1" by linarith+
  then show ?thesis
    by (auto simp: round_half_even_def Let_def abs_le_iff)
qed

lemma round_half_even_nonneg: "0 \<le> x \<Longrightarrow> 0 \<le> round_half_even x"
proof -
  assume "0 \<le> x"
  then have "0 \<le> \<lfloor>x\<rfloor>" by simp
  then show ?thesis by (auto simp: round_half_even_def Let_def)
qed

lemma two_digits: "decimal [digit_char (q mod 100 div 10), digit_char (q mod 10)] = q mod 100"
proof -
  have v1: "digit_value (digit_char (q mod 100 div 10)) = q mod 100 div 10"
    by (rule digit_value_char) simp
  have v2: "digit_value (digit_char (q mod 10)) = q mod 10"
    by (rule digit_value_char) simp
  have "decimal [digit_char (q mod 100 div 10), digit_char (q mod 10)]
          = 10 * (q mod 100 div 10) + q mod 10"
    by (simp add: decimal_def v1 v2)
  also have "\<dots> = q mod 100"
  proof -
    have "q mod 10 = q mod 100 mod 10" by (simp add: mod_mod_cancel)
    then show ?thesis by (metis mult_div_mod_eq)
  qed
  finally show ?thesis .
qed

lemma decimal_two: "decimal (ds @ [d1, d2]) = 100 * decimal ds + decimal [d1, d2]"
  by (simp add: decimal_def)

lemma decimal_two_less: "is_digit d1 \<Longrightarrow> is_digit d2 \<Longrightarrow> decimal [d1, d2] < 100"
  using digit_value_less[of d1] digit_value_less[of d2] by (simp add: decimal_def)

lemma two_digits_back:
  assumes "is_digit d1" and "is_digit d2"
  shows "digit_char (decimal [d1, d2] div 10) = d1" and "digit_char (decimal [d1, d2] mod 10) = d2"
proof -
  have l: "digit_value d1 < 10" "digit_value d2 < 10"
    using assms digit_value_less by blast+
  have "decimal [d1, d2] = 10 * digit_value d1 + digit_value d2" by (simp add: decimal_def)
  then have "decimal [d1, d2] div 10 = digit_value d1" "decimal [d1, d2] mod 10 = digit_value d2"
    using l by simp_all
  then show "digit_char (decimal [d1, d2] div 10) = d1" "digit_char (decimal [d1, d2] mod 10) = d2"
    using assms digit_char_value by simp_all
qed

lemma to_string_2dp_unique:
  assumes "canonical ds" and "is_digit d1" and "is_digit d2"
    and "int (decimal (ds @ [d1, d2])) = round_half_even (\<bar>magnitude val\<bar> * 100)"
  shows "to_string_2dp val = (if signbit val then ''-'' else '''') @ ds @ ''.'' @ [d1, d2]"
proof -
  define q where "q = nat (round_half_even (\<bar>magnitude val\<bar> * 100))"
  have q: "q = 100 * decimal ds + decimal [d1, d2]"
    unfolding q_def assms(4)[symmetric] by (simp add: decimal_two)
  have l: "decimal [d1, d2] < 100" using assms(2,3) by (rule decimal_two_less)
  have a: "q div 100 = decimal ds" using l by (simp add: q)
  have b: "q mod 100 = decimal [d1, d2]" using l by (simp add: q)
  have "q mod 10 = q mod 100 mod 10" by (simp add: mod_mod_cancel)
  then have c: "q mod 10 = decimal [d1, d2] mod 10" by (simp add: b)
  have "to_string_2dp val =
          (if signbit val then ''-'' else '''') @ digits (q div 100) @ ''.'' @
          [digit_char (q mod 100 div 10), digit_char (q mod 10)]"
    by (simp add: to_string_2dp_def Let_def q_def)
  then show ?thesis
    unfolding a b c by (simp add: digits_decimal[OF assms(1)] two_digits_back[OF assms(2,3)])
qed

text \<open>
  Claim C10. The string for a double is its sign (a minus when the sign bit is set, the
  negative zero included), the integer part in decimal digits without a spare leading zero,
  the point, and exactly two decimal digits; the digits are those of the magnitude rounded
  to hundredths, so the string read back as a number is within half a hundredth of the
  magnitude. The string is determined by the double: any string of this form carrying these
  digits is the one returned. The double 5 is written \<open>5.00\<close>, the negative zero \<open>-0.00\<close>.
\<close>

theorem two_decimals:
  "(\<exists>ds d1 d2.
      to_string_2dp val = (if signbit val then ''-'' else '''') @ ds @ ''.'' @ [d1, d2]
      \<and> canonical ds \<and> is_digit d1 \<and> is_digit d2
      \<and> int (decimal (ds @ [d1, d2])) = round_half_even (\<bar>magnitude val\<bar> * 100)
      \<and> \<bar>(of_nat (decimal ds) + of_nat (decimal [d1, d2]) / 100) - \<bar>magnitude val\<bar>\<bar> \<le> 1 / 200)
   \<and> (\<forall>ds d1 d2.
        canonical ds \<and> is_digit d1 \<and> is_digit d2
        \<and> int (decimal (ds @ [d1, d2])) = round_half_even (\<bar>magnitude val\<bar> * 100)
        \<longrightarrow> to_string_2dp val = (if signbit val then ''-'' else '''') @ ds @ ''.'' @ [d1, d2])
   \<and> to_string_2dp (double_of 5) = ''5.00''
   \<and> to_string_2dp (Double True 0) = ''-0.00''
   \<and> to_string_2dp (Double False 0) = ''0.00''"
proof -
  define q where "q = nat (round_half_even (\<bar>magnitude val\<bar> * 100))"
  let ?ds = "digits (q div 100)"
  let ?d1 = "digit_char (q mod 100 div 10)"
  let ?d2 = "digit_char (q mod 10)"
  have s: "to_string_2dp val = (if signbit val then ''-'' else '''') @ ?ds @ ''.'' @ [?d1, ?d2]"
    by (simp add: to_string_2dp_def Let_def q_def)
  have lt: "q mod 100 div 10 < 10" "q mod 10 < 10" by simp_all
  have d: "is_digit ?d1" "is_digit ?d2"
    using lt digit_char_in unfolding is_digit_def by blast+
  have f: "decimal [?d1, ?d2] = q mod 100" by (rule two_digits)
  have nn: "0 \<le> round_half_even (\<bar>magnitude val\<bar> * 100)" by (rule round_half_even_nonneg) simp
  have "decimal (?ds @ [?d1, ?d2]) = 100 * (q div 100) + q mod 100"
    by (simp only: decimal_two decimal_digits f)
  then have "decimal (?ds @ [?d1, ?d2]) = q" by simp
  then have rd: "int (decimal (?ds @ [?d1, ?d2])) = round_half_even (\<bar>magnitude val\<bar> * 100)"
    using nn by (simp add: q_def)
  have "real q = real (100 * (q div 100) + q mod 100)" by simp
  also have "\<dots> = 100 * real (q div 100) + real (q mod 100)"
    by (simp only: of_nat_add of_nat_mult of_nat_numeral)
  finally have "real (q div 100) + real (q mod 100) / 100 = real q / 100" by simp
  then have v: "(of_nat (decimal ?ds) + of_nat (decimal [?d1, ?d2]) / 100 :: real) = of_nat q / 100"
    by (simp add: decimal_digits f)
  have "(of_nat q :: real) = of_int (round_half_even (\<bar>magnitude val\<bar> * 100))"
    using nn by (simp add: q_def)
  then have "\<bar>of_nat q - \<bar>magnitude val\<bar> * 100\<bar> \<le> (1 / 2 :: real)"
    using round_half_even_close[of "\<bar>magnitude val\<bar> * 100"] by simp
  then have err: "\<bar>of_nat q / 100 - \<bar>magnitude val\<bar>\<bar> \<le> (1 / 200 :: real)"
    by (simp add: abs_le_iff field_simps)
  have a: "\<exists>ds d1 d2.
      to_string_2dp val = (if signbit val then ''-'' else '''') @ ds @ ''.'' @ [d1, d2]
      \<and> canonical ds \<and> is_digit d1 \<and> is_digit d2
      \<and> int (decimal (ds @ [d1, d2])) = round_half_even (\<bar>magnitude val\<bar> * 100)
      \<and> \<bar>(of_nat (decimal ds) + of_nat (decimal [d1, d2]) / 100) - \<bar>magnitude val\<bar>\<bar> \<le> 1 / 200"
    using s digits_canonical[of "q div 100"] d rd err
    unfolding v[symmetric] by blast
  have b: "\<forall>ds d1 d2.
        canonical ds \<and> is_digit d1 \<and> is_digit d2
        \<and> int (decimal (ds @ [d1, d2])) = round_half_even (\<bar>magnitude val\<bar> * 100)
        \<longrightarrow> to_string_2dp val = (if signbit val then ''-'' else '''') @ ds @ ''.'' @ [d1, d2]"
    using to_string_2dp_unique by blast
  have c: "to_string_2dp (double_of 5) = ''5.00''" by (rule labels(1))
  have e: "to_string_2dp (Double True 0) = ''-0.00''" "to_string_2dp (Double False 0) = ''0.00''"
    by (simp_all add: to_string_2dp_def round_half_even_def Let_def digits.simps digit_char_def)
  show ?thesis using a b c e by blast
qed

theorem two_decimals_witness:
  "canonical ''0'' \<and> is_digit CHR ''1'' \<and> is_digit CHR ''2''
   \<and> int (decimal (''0'' @ [CHR ''1'', CHR ''2''])) = round_half_even (\<bar>magnitude (Double False (1 / 8))\<bar> * 100)
   \<and> to_string_2dp (Double False (1 / 8)) = ''0.12''
   \<and> canonical ''2'' \<and> is_digit CHR ''7'' \<and> is_digit CHR ''1''
   \<and> int (decimal (''2'' @ [CHR ''7'', CHR ''1''])) = round_half_even (\<bar>magnitude (double_of (- 271 / 100))\<bar> * 100)
   \<and> to_string_2dp (double_of (- 271 / 100)) = ''-2.71''
   \<and> \<not> canonical ''00''"
proof -
  have a: "canonical ''0''" "is_digit CHR ''1''" "is_digit CHR ''2''"
      "canonical ''2''" "is_digit CHR ''7''" "\<not> canonical ''00''"
    by (simp_all add: canonical_def is_digit_def)
  have b: "int (decimal (''0'' @ [CHR ''1'', CHR ''2''])) = round_half_even (\<bar>magnitude (Double False (1 / 8))\<bar> * 100)"
    by (simp add: decimal_def digit_value_def round_half_even_def Let_def)
  have c: "int (decimal (''2'' @ [CHR ''7'', CHR ''1''])) = round_half_even (\<bar>magnitude (double_of (- 271 / 100))\<bar> * 100)"
    by (simp add: decimal_def digit_value_def round_half_even_def Let_def double_of_def)
  have s: "\<not> signbit (Double False (1 / 8))" "signbit (double_of (- 271 / 100))"
    by (simp_all add: double_of_def)
  note T1 = two_decimals[of "Double False (1 / 8)", THEN conjunct2, THEN conjunct1, rule_format,
      of "''0''" "CHR ''1''" "CHR ''2''"]
  note T2 = two_decimals[of "double_of (- 271 / 100)", THEN conjunct2, THEN conjunct1, rule_format,
      of "''2''" "CHR ''7''" "CHR ''1''"]
  have "to_string_2dp (Double False (1 / 8)) =
          (if signbit (Double False (1 / 8)) then ''-'' else []) @ ''0'' @ ''.'' @ [CHR ''1'', CHR ''2'']"
    using a(1,2,3) b by (intro T1 conjI)
  then have d: "to_string_2dp (Double False (1 / 8)) = ''0.12''"
    by (simp only: s if_False if_True append.simps)
  have "to_string_2dp (double_of (- 271 / 100)) =
          (if signbit (double_of (- 271 / 100)) then ''-'' else []) @ ''2'' @ ''.'' @ [CHR ''7'', CHR ''1'']"
    using a(2,4,5) c by (intro T2 conjI)
  then have e: "to_string_2dp (double_of (- 271 / 100)) = ''-2.71''"
    by (simp only: s if_False if_True append.simps)
  show ?thesis using a b c d e by blast
qed

section \<open>A worked run: two trials, then a failed one\<close>

lemma short_run:
  "event_trace collab_short iMass smass 0 =
     [Event_reset [system_entry],
      Event_append (quark collab_short smass), Event_append (antiquark collab_short smass),
      Pythia_next [system_entry, quark collab_short smass, antiquark collab_short smass]
        (Some [system_entry, quark collab_short smass, antiquark collab_short smass,
               hadron 83 (1 / 2), hadron 91 3, hadron 84 (- (1 / 2))]),
      Hist_fill (1 / 2), Hist_fill (- (1 / 2)),
      Event_reset [system_entry],
      Event_append (quark collab_short smass), Event_append (antiquark collab_short smass),
      Pythia_next [system_entry, quark collab_short smass, antiquark collab_short smass]
        (Some [system_entry, quark collab_short smass, antiquark collab_short smass,
               hadron 83 (1 / 2), hadron 91 3, hadron 84 (- (1 / 2))]),
      Hist_fill (1 / 2), Hist_fill (- (1 / 2)),
      Event_reset [system_entry],
      Event_append (quark collab_short smass), Event_append (antiquark collab_short smass),
      Pythia_next [system_entry, quark collab_short smass, antiquark collab_short smass] None,
      Cout_error]"
proof -
  have n: "next_event collab_short iMass k ev =
            (if k < 2 then Some (ev @ [hadron 83 (1 / 2), hadron 91 3, hadron 84 (- (1 / 2))]) else None)"
    for k ev
    by (simp add: collab_short_def)
  have z: "event_reset collab_short iMass k = [system_entry]" for k
    by (simp add: collab_short_def)
  have r: "rapidity collab_short = pz" by (simp add: collab_short_def)
  have s: "scanned collab_short
             [system_entry, quark collab_short smass, antiquark collab_short smass,
              hadron 83 (1 / 2), hadron 91 3, hadron 84 (- (1 / 2))]
             = [1 / 2, - (1 / 2)]"
    by (simp add: scanned_def primary_def parton_fields system_entry_def hadron_def r)
  have t: "trial_trace collab_short iMass smass k =
     [Event_reset [system_entry],
      Event_append (quark collab_short smass), Event_append (antiquark collab_short smass),
      Pythia_next [system_entry, quark collab_short smass, antiquark collab_short smass]
        (if k < 2 then Some [system_entry, quark collab_short smass, antiquark collab_short smass,
               hadron 83 (1 / 2), hadron 91 3, hadron 84 (- (1 / 2))] else None)] @
     (if k < 2 then [Hist_fill (1 / 2), Hist_fill (- (1 / 2))] else [Cout_error])" for k
    by (simp add: trial_trace_def record_in_def n z s)
  have u0: "event_trace collab_short iMass smass 0 =
              trial_trace collab_short iMass smass 0 @ event_trace collab_short iMass smass 1"
    using event_trace_unfold[of 0 collab_short iMass smass]
    by (simp add: nEvent_def n record_in_def)
  have u1: "event_trace collab_short iMass smass 1 =
              trial_trace collab_short iMass smass 1 @ event_trace collab_short iMass smass 2"
    using event_trace_unfold[of 1 collab_short iMass smass]
    by (simp add: nEvent_def n record_in_def)
  have u2: "event_trace collab_short iMass smass 2 = trial_trace collab_short iMass smass 2"
    using event_trace_unfold[of 2 collab_short iMass smass]
    by (simp add: nEvent_def n record_in_def)
  show ?thesis
    unfolding u0 u1 u2 by (simp add: t)
qed

lemma half_index: "bin_index dndy0 (1 / 2) = 52" "bin_index dndy0 (- (1 / 2)) = 47"
  by (simp_all add: bin_index_def dndy0_fields double_eval)

lemma one_plus_one: "dadd 0 1 = 1" "dadd 1 1 = 2"
  by (simp_all add: double_eval)

lemma short_run_fills: "fills (event_trace collab_short iMass smass 0) = [1 / 2, - (1 / 2), 1 / 2, - (1 / 2)]"
  by (simp add: short_run)

lemma fill_keeps:
  "bin_index (fill h v w) x = bin_index h x" "binCount (fill h v w) = binCount h"
  by (simp_all add: bin_index_def fill_def Let_def)

lemma short_run_hist:
  "entries (fill_all dndy0 (fills (event_trace collab_short iMass smass 0))) = 4"
  "geometry (fill_all dndy0 (fills (event_trace collab_short iMass smass 0))) = (100, - 10, 10)"
  "counts (fill_all dndy0 (fills (event_trace collab_short iMass smass 0))) ! 52 = 2"
  "counts (fill_all dndy0 (fills (event_trace collab_short iMass smass 0))) ! 47 = 2"
proof -
  show "entries (fill_all dndy0 (fills (event_trace collab_short iMass smass 0))) = 4"
    by (simp add: short_run_fills fill_all_entries dndy0_fields)
  show "geometry (fill_all dndy0 (fills (event_trace collab_short iMass smass 0))) = (100, - 10, 10)"
    unfolding fill_all_geometry by (simp add: geometry_def dndy0_fields)
  show "counts (fill_all dndy0 (fills (event_trace collab_short iMass smass 0))) ! 52 = 2"
    by (simp add: short_run_fills fill_all_def fill_counts fill_keeps half_index dndy0_fields
        one_plus_one)
  show "counts (fill_all dndy0 (fills (event_trace collab_short iMass smass 0))) ! 47 = 2"
    by (simp add: short_run_fills fill_all_def fill_counts fill_keeps half_index dndy0_fields
        one_plus_one)
qed


end
